theory Spec2Isabelle
  imports Main "HOL-Library.Word"
begin

section \<open>Errors\<close>

text \<open>
  Go's \<open>error\<close> values that flow through the services: the registration service's own
  \<open>crterrors.Error\<close> (an HTTP status code, a message and details), the status errors of
  the Kubernetes API machinery, and plain \<open>errors.New\<close> strings.
\<close>

datatype status_reason = NotFound | Conflict | ServiceUnavailable | OtherReason string

datatype error =
    CrtError (Code: nat) (Message: string) (Details: string)
  | StatusError status_reason string
  | ErrorString string

definition StatusBadRequest :: nat where "StatusBadRequest = 400"
definition StatusUnauthorized :: nat where "StatusUnauthorized = 401"
definition StatusForbidden :: nat where "StatusForbidden = 403"
definition StatusNotFound :: nat where "StatusNotFound = 404"
definition StatusTooManyRequests :: nat where "StatusTooManyRequests = 429"
definition StatusInternalServerError :: nat where "StatusInternalServerError = 500"

text \<open>
  Modelled from the spec: package \<open>crterrors\<close> (pkg/errors) is not among the sources.
  Its constructors pair the HTTP status of section 7 of the specification with the two
  texts they are given; the controller and proxy tests fix the rendering of
  \<open>Error()\<close> as \<open>message: details\<close>, and as the bare message when the details are empty
  (\<open>"too many verification attempts"\<close>).
\<close>

fun Error_text :: "error \<Rightarrow> string" where
  "Error_text (CrtError c m d) = (if d = [] then m else m @ '': '' @ d)"
| "Error_text (StatusError r m) = m"
| "Error_text (ErrorString m) = m"

definition NewBadRequest :: "string \<Rightarrow> string \<Rightarrow> error" where
  "NewBadRequest message details = CrtError StatusBadRequest message details"

definition NewUnauthorizedError :: "string \<Rightarrow> string \<Rightarrow> error" where
  "NewUnauthorizedError message details = CrtError StatusUnauthorized message details"

definition NewForbiddenError :: "string \<Rightarrow> string \<Rightarrow> error" where
  "NewForbiddenError message details = CrtError StatusForbidden message details"

definition NewTooManyRequestsError :: "string \<Rightarrow> string \<Rightarrow> error" where
  "NewTooManyRequestsError message details = CrtError StatusTooManyRequests message details"

definition NewNotFoundError :: "error \<Rightarrow> string \<Rightarrow> error" where
  "NewNotFoundError err details = CrtError StatusNotFound (Error_text err) details"

definition NewInternalError :: "error \<Rightarrow> string \<Rightarrow> error" where
  "NewInternalError err details = CrtError StatusInternalServerError (Error_text err) details"

text \<open>\<open>apierrors.IsNotFound\<close>.\<close>

fun IsNotFound :: "error \<Rightarrow> bool" where
  "IsNotFound (StatusError r m) = (r = NotFound)"
| "IsNotFound _ = False"

text \<open>\<open>errors.As(err, &e) && e.Code == http.StatusForbidden\<close> for a \<open>*crterrors.Error\<close> target.\<close>

fun IsCrtForbidden :: "error \<Rightarrow> bool" where
  "IsCrtForbidden (CrtError c m d) = (c = StatusForbidden)"
| "IsCrtForbidden _ = False"

section \<open>The proxy: bearer token extraction (pkg/proxy/proxy.go)\<close>

text \<open>
  \<open>strings.Split(s, sep)\<close> for a non-empty separator: the pieces between the
  non-overlapping occurrences of \<open>sep\<close>, found from the left. \<open>Split_from sep acc s\<close>
  scans \<open>s\<close> with the characters of the current piece accumulated (reversed) in \<open>acc\<close>.
  For the empty separator Go splits after every character.
\<close>

function Split_from :: "string \<Rightarrow> string \<Rightarrow> string \<Rightarrow> string list" where
  "Split_from sep acc [] = [rev acc]"
| "Split_from sep acc (c # cs) =
     (if sep \<noteq> [] \<and> take (length sep) (c # cs) = sep
      then rev acc # Split_from sep [] (drop (length sep) (c # cs))
      else Split_from sep (c # acc) cs)"
  by pat_completeness auto
termination
  by (relation "measure (\<lambda>(sep, acc, s). length s)") auto

definition Split :: "string \<Rightarrow> string \<Rightarrow> string list" where
  "Split s sep = (if sep = [] then map (\<lambda>c. [c]) s else Split_from sep [] s)"

text \<open>
  An \<open>http.Request\<close>, reduced to its header: for each (canonical) header name the list of
  values. \<open>Header.Get\<close> returns the first value, or the empty string.
\<close>

record Request =
  Header :: "string \<rightharpoonup> string list"

definition Header_Get :: "(string \<rightharpoonup> string list) \<Rightarrow> string \<Rightarrow> string" where
  "Header_Get h key = (case h key of None \<Rightarrow> [] | Some [] \<Rightarrow> [] | Some (v # vs) \<Rightarrow> v)"

definition extractUserToken :: "Request \<Rightarrow> error + string" where
  "extractUserToken req =
     (let a = Header_Get (Header req) ''Authorization'';
          token = Split a ''Bearer ''
      in if length token < 2
         then Inl (NewUnauthorizedError ''no token found'' ''a Bearer token is expected'')
         else Inr (token ! 1))"

text \<open>
  The proxy's collaborators are parameters: the token parser (\<open>tokenParser.FromString\<close>,
  returning the token's subject), the namespace lookup (\<open>namespaces.GetNamespace\<close>) and the
  reverse proxy that serves the request once the target is known.
\<close>

record 'ns Proxy =
  tokenParser_FromString :: "string \<Rightarrow> error + string"
  namespaces_GetNamespace :: "string \<Rightarrow> error + 'ns"
  reverseProxy_ServeHTTP :: "'ns \<Rightarrow> Request \<Rightarrow> nat \<times> string \<times> string"

definition extractUserID :: "'ns Proxy \<Rightarrow> Request \<Rightarrow> error + string" where
  "extractUserID p req =
     (case extractUserToken req of
        Inl err \<Rightarrow> Inl err
      | Inr userToken \<Rightarrow>
          (case tokenParser_FromString p userToken of
             Inl err \<Rightarrow> Inl (NewUnauthorizedError ''unable to extract userID from token'' (Error_text err))
           | Inr subject \<Rightarrow> Inr subject))"

text \<open>\<open>createContext\<close>: the gin context holds the user ID under the subject key.\<close>

definition createContext :: "'ns Proxy \<Rightarrow> Request \<Rightarrow> error + string" where
  "createContext p req =
     (case extractUserID p req of Inl err \<Rightarrow> Inl err | Inr userID \<Rightarrow> Inr userID)"

text \<open>
  \<open>http.Error(res, err.Error(), err.Code)\<close>: the status code, the content type
  \<open>text/plain\<close> and the error text followed by a newline. A response is the triple of
  status, content type and body.
\<close>

definition responseWithError :: "error \<Rightarrow> nat \<times> string \<times> string" where
  "responseWithError err = (Code err, ''text/plain; charset=utf-8'', Error_text err @ [CHR 0x0A])"

definition handleRequestAndRedirect :: "'ns Proxy \<Rightarrow> Request \<Rightarrow> nat \<times> string \<times> string" where
  "handleRequestAndRedirect p req =
     (case createContext p req of
        Inl err \<Rightarrow>
          responseWithError (NewUnauthorizedError ''unable to create a context'' (Error_text err))
      | Inr ctx \<Rightarrow>
          (case namespaces_GetNamespace p ctx of
             Inl err \<Rightarrow>
               responseWithError
                 (NewInternalError (ErrorString ''unable to get target namespace'') (Error_text err))
           | Inr ns \<Rightarrow> reverseProxy_ServeHTTP p ns req))"

section \<open>Integers, decimal conversion and time\<close>

text \<open>
  Go's \<open>int\<close> on the 64-bit platforms the service runs on: addition wraps, comparison is
  signed (\<open><=s\<close>, \<open><s\<close>), \<open>sint\<close> reads the value.
\<close>

type_synonym goint = "64 word"

definition isDigit :: "char \<Rightarrow> bool" where
  "isDigit c = (c \<in> set ''0123456789'')"

definition digit_val :: "char \<Rightarrow> int" where
  "digit_val c = int (of_char c) - 48"

definition decimal_val :: "string \<Rightarrow> int" where
  "decimal_val ds = foldl (\<lambda>n c. 10 * n + digit_val c) 0 ds"

text \<open>
  \<open>strconv.Atoi\<close>: an optional sign, then one or more decimal digits and nothing else;
  a value outside the range of \<open>int\<close> is an error as well. The error text is
  \<open>strconv.Atoi: parsing "s": reason\<close> (the quoting of unprintable characters by
  \<open>strconv.Quote\<close> is not reproduced).
\<close>

definition NumError :: "string \<Rightarrow> string \<Rightarrow> error" where
  "NumError s reason =
     ErrorString (''strconv.Atoi: parsing '' @ [CHR 0x22] @ s @ [CHR 0x22] @ '': '' @ reason)"

definition Atoi :: "string \<Rightarrow> error + goint" where
  "Atoi s0 =
     (let neg = (s0 \<noteq> [] \<and> hd s0 = CHR ''-'');
          s = (if s0 \<noteq> [] \<and> (hd s0 = CHR ''-'' \<or> hd s0 = CHR ''+'') then tl s0 else s0)
      in if s = [] \<or> \<not> list_all isDigit s then Inl (NumError s0 ''invalid syntax'')
         else let n = (if neg then - decimal_val s else decimal_val s)
              in if n < - (2 ^ 63) \<or> 2 ^ 63 - 1 < n then Inl (NumError s0 ''value out of range'')
                 else Inr (word_of_int n))"

text \<open>\<open>strconv.Itoa\<close>: the decimal digits of the value, with a minus sign when negative.\<close>

definition digit_char :: "nat \<Rightarrow> char" where
  "digit_char d = ''0123456789'' ! d"

function int_decimal :: "int \<Rightarrow> string" where
  "int_decimal n =
     (if n < 10 then [digit_char (nat n)]
      else int_decimal (n div 10) @ [digit_char (nat (n mod 10))])"
  by pat_completeness auto
termination
  by (relation "measure nat") auto

declare int_decimal.simps [simp del]

definition Itoa :: "goint \<Rightarrow> string" where
  "Itoa i = (let n = sint i in if n < 0 then CHR ''-'' # int_decimal (- n) else int_decimal n)"

text \<open>
  A \<open>time.Time\<close> is an instant, counted in nanoseconds; a \<open>time.Duration\<close> is a 64-bit
  count of nanoseconds. \<open>Time.Add\<close> moves the instant, \<open>Time.After\<close> compares instants.
\<close>

type_synonym time = int

definition Minute :: goint where "Minute = 60000000000"
definition Hour :: goint where "Hour = 60 * Minute"

definition Time_Add :: "time \<Rightarrow> goint \<Rightarrow> time" where
  "Time_Add t d = t + sint d"

definition Time_After :: "time \<Rightarrow> time \<Rightarrow> bool" where
  "Time_After t u = (u < t)"

section \<open>The resources of the host cluster\<close>

text \<open>
  A \<open>UserSignup\<close> with the parts the verification service reads and writes: its name, the
  preferred username of its identity claims, the list \<open>Spec.States\<close>, and the label and
  annotation maps. Reading a Go map at an absent key yields the empty string.
\<close>

record UserSignup =
  Name :: string
  PreferredUsername :: string
  States :: "string list"
  Labels :: "string \<rightharpoonup> string"
  Annotations :: "string \<rightharpoonup> string"

record BannedUser =
  BannedUserLabels :: "string \<rightharpoonup> string"

record SocialEvent =
  EventName :: string
  StartTime :: time
  EndTime :: time
  MaxAttendees :: goint
  ActivationCount :: goint

definition map_index :: "(string \<rightharpoonup> string) \<Rightarrow> string \<Rightarrow> string" where
  "map_index m k = (case m k of None \<Rightarrow> [] | Some v \<Rightarrow> v)"

text \<open>
  The keys and values of package \<open>toolchainv1alpha1\<close> (the toolchain API module, outside this
  repository), with the strings that module gives them. The UserSignup and the BannedUser
  phone hash labels share one key.
\<close>

definition UserSignupUserPhoneHashLabelKey :: string where
  "UserSignupUserPhoneHashLabelKey = ''toolchain.dev.openshift.com/phone-hash''"
definition BannedUserPhoneNumberHashLabelKey :: string where
  "BannedUserPhoneNumberHashLabelKey = ''toolchain.dev.openshift.com/phone-hash''"
definition UserSignupStateLabelKey :: string where
  "UserSignupStateLabelKey = ''toolchain.dev.openshift.com/state''"
definition UserSignupStateLabelValueApproved :: string where
  "UserSignupStateLabelValueApproved = ''approved''"
definition SocialEventUserSignupLabelKey :: string where
  "SocialEventUserSignupLabelKey = ''toolchain.dev.openshift.com/social-event''"
definition UserSignupVerificationCounterAnnotationKey :: string where
  "UserSignupVerificationCounterAnnotationKey = ''toolchain.dev.openshift.com/verification-counter''"
definition UserSignupVerificationInitTimestampAnnotationKey :: string where
  "UserSignupVerificationInitTimestampAnnotationKey = ''toolchain.dev.openshift.com/verification-init-timestamp''"
definition UserSignupVerificationCodeAnnotationKey :: string where
  "UserSignupVerificationCodeAnnotationKey = ''toolchain.dev.openshift.com/verification-code''"
definition UserVerificationAttemptsAnnotationKey :: string where
  "UserVerificationAttemptsAnnotationKey = ''toolchain.dev.openshift.com/verification-attempts''"
definition UserVerificationExpiryAnnotationKey :: string where
  "UserVerificationExpiryAnnotationKey = ''toolchain.dev.openshift.com/verification-expiry''"
definition UserSignupActivationCounterAnnotationKey :: string where
  "UserSignupActivationCounterAnnotationKey = ''toolchain.dev.openshift.com/activation-counter''"
definition UserSignupCaptchaScoreAnnotationKey :: string where
  "UserSignupCaptchaScoreAnnotationKey = ''toolchain.dev.openshift.com/captcha-score''"
definition UserSignupStateVerificationRequired :: string where
  "UserSignupStateVerificationRequired = ''verification-required''"
definition UserSignupStateDeactivated :: string where
  "UserSignupStateDeactivated = ''deactivated''"

text \<open>
  Package \<open>states\<close> of toolchain-common: a state holds when its name is in \<open>Spec.States\<close>;
  setting it to false removes the name, setting it to true appends it when absent.
\<close>

definition setState :: "UserSignup \<Rightarrow> string \<Rightarrow> bool \<Rightarrow> UserSignup" where
  "setState userSignup state val =
     (if val then (if state \<in> set (States userSignup) then userSignup
                   else userSignup\<lparr>States := States userSignup @ [state]\<rparr>)
      else userSignup\<lparr>States := filter (\<lambda>s. s \<noteq> state) (States userSignup)\<rparr>)"

definition VerificationRequired :: "UserSignup \<Rightarrow> bool" where
  "VerificationRequired userSignup = (UserSignupStateVerificationRequired \<in> set (States userSignup))"

definition SetVerificationRequired :: "UserSignup \<Rightarrow> bool \<Rightarrow> UserSignup" where
  "SetVerificationRequired userSignup val = setState userSignup UserSignupStateVerificationRequired val"

definition Deactivated :: "UserSignup \<Rightarrow> bool" where
  "Deactivated userSignup = (UserSignupStateDeactivated \<in> set (States userSignup))"

definition SetDeactivated :: "UserSignup \<Rightarrow> bool \<Rightarrow> UserSignup" where
  "SetDeactivated userSignup val = setState userSignup UserSignupStateDeactivated val"

section \<open>The outside world\<close>

text \<open>
  Everything the service reaches through an interface: the resources behind the namespaced
  client, the SMS sender and the random source. Every call is appended to \<open>trace\<close>. A call
  can fail: each kind of call has a script of injected outcomes, consumed one per call
  (\<open>Some err\<close> makes the call fail with \<open>err\<close> and change nothing; \<open>None\<close>, or an exhausted
  script, lets it run).
\<close>

datatype call =
    CallGet string
  | CallList string "(string \<times> string) list"
  | CallUpdate string
  | CallSend string string string

record world =
  UserSignups :: "UserSignup list"
  BannedUsers :: "BannedUser list"
  SocialEvents :: "SocialEvent list"
  get_faults :: "error option list"
  list_faults :: "error option list"
  update_faults :: "error option list"
  send_faults :: "error option list"
  entropy :: "8 word list"
  trace :: "call list"

definition next_fault :: "error option list \<Rightarrow> error option \<times> error option list" where
  "next_fault fs = (case fs of [] \<Rightarrow> (None, []) | f # rest \<Rightarrow> (f, rest))"

definition not_found :: "string \<Rightarrow> string \<Rightarrow> error" where
  "not_found resource name =
     StatusError NotFound (resource @ '' '' @ [CHR 0x22] @ name @ [CHR 0x22] @ '' not found'')"

text \<open>\<open>Client.Get\<close> of a UserSignup by name, in the client's namespace.\<close>

definition client_Get :: "world \<Rightarrow> string \<Rightarrow> (error + UserSignup) \<times> world" where
  "client_Get w name =
     (let (fault, rest) = next_fault (get_faults w);
          w' = w\<lparr>get_faults := rest, trace := trace w @ [CallGet name]\<rparr>
      in case fault of
           Some err \<Rightarrow> (Inl err, w')
         | None \<Rightarrow>
             (case find (\<lambda>s. Name s = name) (UserSignups w) of
                None \<Rightarrow> (Inl (not_found ''usersignups.toolchain.dev.openshift.com'' name), w')
              | Some signup \<Rightarrow> (Inr signup, w')))"

text \<open>\<open>Client.Get\<close> of a SocialEvent by name.\<close>

definition client_Get_SocialEvent :: "world \<Rightarrow> string \<Rightarrow> (error + SocialEvent) \<times> world" where
  "client_Get_SocialEvent w name =
     (let (fault, rest) = next_fault (get_faults w);
          w' = w\<lparr>get_faults := rest, trace := trace w @ [CallGet name]\<rparr>
      in case fault of
           Some err \<Rightarrow> (Inl err, w')
         | None \<Rightarrow>
             (case find (\<lambda>e. EventName e = name) (SocialEvents w) of
                None \<Rightarrow> (Inl (not_found ''socialevents.toolchain.dev.openshift.com'' name), w')
              | Some event \<Rightarrow> (Inr event, w')))"

text \<open>
  \<open>Client.Update\<close>: the stored UserSignup of that name is replaced; updating a resource that
  does not exist is a not-found error.
\<close>

definition client_Update :: "world \<Rightarrow> UserSignup \<Rightarrow> error option \<times> world" where
  "client_Update w signup =
     (let (fault, rest) = next_fault (update_faults w);
          w' = w\<lparr>update_faults := rest, trace := trace w @ [CallUpdate (Name signup)]\<rparr>
      in case fault of
           Some err \<Rightarrow> (Some err, w')
         | None \<Rightarrow>
             (case find (\<lambda>s. Name s = Name signup) (UserSignups w) of
                None \<Rightarrow> (Some (not_found ''usersignups.toolchain.dev.openshift.com'' (Name signup)), w')
              | Some old \<Rightarrow>
                  (None, w'\<lparr>UserSignups :=
                              map (\<lambda>s. if Name s = Name signup then signup else s) (UserSignups w)\<rparr>)))"

text \<open>
  \<open>Client.List\<close> with \<open>client.MatchingLabels\<close>: the resources that carry every label of the
  selector with the selector's value.
\<close>

definition MatchingLabels :: "(string \<times> string) list \<Rightarrow> (string \<rightharpoonup> string) \<Rightarrow> bool" where
  "MatchingLabels selector labels = list_all (\<lambda>(k, v). labels k = Some v) selector"

definition client_List_BannedUser :: "world \<Rightarrow> (string \<times> string) list \<Rightarrow> (error + BannedUser list) \<times> world" where
  "client_List_BannedUser w selector =
     (let (fault, rest) = next_fault (list_faults w);
          w' = w\<lparr>list_faults := rest, trace := trace w @ [CallList ''BannedUserList'' selector]\<rparr>
      in case fault of
           Some err \<Rightarrow> (Inl err, w')
         | None \<Rightarrow> (Inr (filter (\<lambda>b. MatchingLabels selector (BannedUserLabels b)) (BannedUsers w)), w'))"

definition client_List_UserSignup :: "world \<Rightarrow> (string \<times> string) list \<Rightarrow> (error + UserSignup list) \<times> world" where
  "client_List_UserSignup w selector =
     (let (fault, rest) = next_fault (list_faults w);
          w' = w\<lparr>list_faults := rest, trace := trace w @ [CallList ''UserSignupList'' selector]\<rparr>
      in case fault of
           Some err \<Rightarrow> (Inl err, w')
         | None \<Rightarrow> (Inr (filter (\<lambda>s. MatchingLabels selector (Labels s)) (UserSignups w)), w'))"

text \<open>\<open>NotificationService.SendNotification\<close>: the SMS sender.\<close>

definition SendNotification :: "world \<Rightarrow> string \<Rightarrow> string \<Rightarrow> string \<Rightarrow> error option \<times> world" where
  "SendNotification w content phoneNumber countryCode =
     (let (fault, rest) = next_fault (send_faults w)
      in (fault, w\<lparr>send_faults := rest, trace := trace w @ [CallSend content phoneNumber countryCode]\<rparr>))"

text \<open>\<open>rand.Read(buf)\<close> fills the buffer from the random source, or fails.\<close>

definition rand_Read :: "world \<Rightarrow> nat \<Rightarrow> (error + 8 word list) \<times> world" where
  "rand_Read w n =
     (if length (entropy w) < n then (Inl (ErrorString ''crypto/rand: read failed''), w)
      else (Inr (take n (entropy w)), w\<lparr>entropy := drop n (entropy w)\<rparr>))"

text \<open>
  The library functions and the retry policy the service is built on, as parameters:
  \<open>signupcommon.EncodeUserIdentifier\<close>, \<open>hash.EncodeString\<close> (the MD5 digest in hexadecimal),
  \<open>strconv.ParseFloat(s, 32)\<close> followed by the conversion to \<open>float32\<close> with the order of
  \<open>float32\<close>, \<open>time.Parse\<close> and \<open>Time.Format\<close> with \<open>TimestampLayout\<close>.
\<close>

record 'f env =
  EncodeUserIdentifier :: "string \<Rightarrow> string"
  EncodeString :: "string \<Rightarrow> string"
  ParseFloat32 :: "string \<Rightarrow> error + 'f"
  float32_less :: "'f \<Rightarrow> 'f \<Rightarrow> bool"
  time_Parse :: "string \<Rightarrow> error + time"
  time_Format :: "time \<Rightarrow> string"
  poll_retries :: nat
  poll_retriable :: "error \<Rightarrow> bool"
  SignupService_Signup :: "string \<Rightarrow> string \<Rightarrow> world \<Rightarrow> error option \<times> world"

text \<open>\<open>configuration.GetRegistrationServiceConfig().Verification()\<close>.\<close>

record 'f config =
  DailyLimit :: goint
  AttemptsAllowed :: goint
  CodeExpiresInMin :: goint
  MessageTemplate :: "string \<Rightarrow> string"
  CaptchaRequiredScore :: 'f
  CaptchaAllowLowScoreReactivation :: bool

section \<open>The update loop\<close>

text \<open>
  Modelled from the spec: \<open>PollUpdateSignup\<close> (pkg/signup) is not among the sources. Section 5
  of the specification: the mutation closure is re-invoked up to N times on conflict or
  transient server error, every iteration re-reading the UserSignup; when the retries are
  exhausted, or the error is of another kind, the error of the last iteration is returned.
  The closure may change variables of the enclosing function, so it runs on a state \<open>'s\<close>
  that holds them together with the world. The waiting between the iterations is left out.
\<close>

fun PollUpdateSignup_loop ::
  "nat \<Rightarrow> (error \<Rightarrow> bool) \<Rightarrow> ('s \<Rightarrow> error option \<times> 's) \<Rightarrow> 's \<Rightarrow> error option \<times> 's" where
  "PollUpdateSignup_loop 0 retriable updater s = updater s"
| "PollUpdateSignup_loop (Suc n) retriable updater s =
     (case updater s of
        (None, s') \<Rightarrow> (None, s')
      | (Some err, s') \<Rightarrow>
          if retriable err then PollUpdateSignup_loop n retriable updater s' else (Some err, s'))"

definition PollUpdateSignup :: "'f env \<Rightarrow> ('s \<Rightarrow> error option \<times> 's) \<Rightarrow> 's \<Rightarrow> error option \<times> 's" where
  "PollUpdateSignup env updater s =
     PollUpdateSignup_loop (poll_retries env) (poll_retriable env) updater s"

definition updateAccountError :: error where
  "updateAccountError =
     ErrorString (''there was an error while updating your account - please wait a moment before '' @
       ''trying again. If this error persists, please contact the Developer Sandbox team at devsandbox@redhat.com for '' @
       ''assistance: error while verifying phone code'')"

section \<open>The phone number reuse check\<close>

text \<open>
  \<open>md5Matcher = regexp.MustCompile("(?i)[a-f0-9]{32}$")\<close>: the expression is anchored at the
  end of the text only, so \<open>Match\<close> holds exactly when the last 32 characters of the input
  are hexadecimal digits of either case.
\<close>

definition isHexDigit :: "char \<Rightarrow> bool" where
  "isHexDigit c = (c \<in> set ''0123456789abcdefABCDEF'')"

definition md5Matcher_Match :: "string \<Rightarrow> bool" where
  "md5Matcher_Match b = (32 \<le> length b \<and> list_all isHexDigit (drop (length b - 32) b))"

text \<open>The loop over the approved UserSignups with the same phone hash.\<close>

fun PhoneNumberAlreadyInUse_items :: "string \<Rightarrow> UserSignup list \<Rightarrow> error option" where
  "PhoneNumberAlreadyInUse_items username [] = None"
| "PhoneNumberAlreadyInUse_items username (userSignup # items) =
     (if PreferredUsername userSignup \<noteq> username \<and> \<not> Deactivated userSignup
      then Some (NewForbiddenError ''cannot re-register with phone number'' ''phone number already in use'')
      else PhoneNumberAlreadyInUse_items username items)"

definition PhoneNumberAlreadyInUse :: "'f env \<Rightarrow> world \<Rightarrow> string \<Rightarrow> string \<Rightarrow> error option \<times> world" where
  "PhoneNumberAlreadyInUse env cl username phoneNumberOrHash =
     (let labelValue = (if md5Matcher_Match phoneNumberOrHash then phoneNumberOrHash
                        else EncodeString env phoneNumberOrHash)
      in case client_List_BannedUser cl [(BannedUserPhoneNumberHashLabelKey, labelValue)] of
           (Inl err, cl1) \<Rightarrow> (Some (NewInternalError err ''failed listing banned users''), cl1)
         | (Inr bannedUserList, cl1) \<Rightarrow>
             if 0 < length bannedUserList
             then (Some (NewForbiddenError ''cannot re-register with phone number'' ''phone number already in use''), cl1)
             else
               (case client_List_UserSignup cl1
                       [(UserSignupStateLabelKey, UserSignupStateLabelValueApproved),
                        (BannedUserPhoneNumberHashLabelKey, labelValue)] of
                  (Inl err, cl2) \<Rightarrow> (Some (NewInternalError err ''failed listing userSignups''), cl2)
                | (Inr userSignups, cl2) \<Rightarrow> (PhoneNumberAlreadyInUse_items username userSignups, cl2)))"

section \<open>InitVerification\<close>

definition codeCharset :: string where "codeCharset = ''0123456789''"
definition codeLength :: nat where "codeLength = 6"

definition generateVerificationCode :: "world \<Rightarrow> (error + string) \<times> world" where
  "generateVerificationCode w =
     (case rand_Read w codeLength of
        (Inl err, w') \<Rightarrow> (Inl err, w')
      | (Inr buf, w') \<Rightarrow> (Inr (map (\<lambda>b. codeCharset ! (unat b mod length codeCharset)) buf), w'))"

text \<open>
  The verification counter read from its annotation: zero when the annotation is empty or
  absent, the daily limit (written back) when it is not a number.
\<close>

definition InitVerification_counter :: "goint \<Rightarrow> string \<Rightarrow> goint \<times> (string \<rightharpoonup> string)" where
  "InitVerification_counter dailyLimit verificationCounter =
     (if verificationCounter \<noteq> [] then
        (case Atoi verificationCounter of
           Inl err \<Rightarrow> (dailyLimit, [UserSignupVerificationCounterAnnotationKey \<mapsto> Itoa dailyLimit])
         | Inr counter \<Rightarrow> (counter, Map.empty))
      else (0, Map.empty))"

text \<open>
  The 24 hour window: when the timestamp annotation does not parse or is more than 24 hours
  old, a new timestamp is set and the counter starts again from zero.
\<close>

definition InitVerification_window ::
  "'f env \<Rightarrow> time \<Rightarrow> UserSignup \<Rightarrow> goint \<times> (string \<rightharpoonup> string) \<Rightarrow> goint \<times> (string \<rightharpoonup> string)" where
  "InitVerification_window env now signup ca =
     (case ca of (counter, annotationValues) \<Rightarrow>
        (case time_Parse env (map_index (Annotations signup) UserSignupVerificationInitTimestampAnnotationKey) of
           Inl parseErr \<Rightarrow>
             (0, annotationValues
                   (UserSignupVerificationInitTimestampAnnotationKey \<mapsto> time_Format env now,
                    UserSignupVerificationCounterAnnotationKey \<mapsto> ''0''))
         | Inr ts \<Rightarrow>
             if Time_After now (Time_Add ts (24 * Hour))
             then (0, annotationValues
                        (UserSignupVerificationInitTimestampAnnotationKey \<mapsto> time_Format env now,
                         UserSignupVerificationCounterAnnotationKey \<mapsto> ''0''))
             else (counter, annotationValues)))"

text \<open>The closure \<open>doUpdate\<close> of \<open>InitVerification\<close>.\<close>

definition InitVerification_doUpdate ::
  "'f env \<Rightarrow> string \<Rightarrow> (string \<rightharpoonup> string) \<Rightarrow> (string \<rightharpoonup> string) \<Rightarrow> world \<Rightarrow> error option \<times> world" where
  "InitVerification_doUpdate env username labelValues annotationValues w =
     (case client_Get w (EncodeUserIdentifier env username) of
        (Inl err, w1) \<Rightarrow> (Some err, w1)
      | (Inr signup, w1) \<Rightarrow>
          client_Update w1
            (signup\<lparr>Labels := Labels signup ++ labelValues,
                    Annotations := Annotations signup ++ annotationValues\<rparr>))"

text \<open>The end of \<open>InitVerification\<close>, from the update loop on.\<close>

definition InitVerification_update ::
  "'f env \<Rightarrow> string \<Rightarrow> (string \<rightharpoonup> string) \<Rightarrow> (string \<rightharpoonup> string) \<Rightarrow> error option \<Rightarrow> world
     \<Rightarrow> error option \<times> world" where
  "InitVerification_update env username labelValues annotationValues initError w =
     (case PollUpdateSignup env (InitVerification_doUpdate env username labelValues annotationValues) w of
        (Some updateErr, w') \<Rightarrow> (Some updateAccountError, w')
      | (None, w') \<Rightarrow> (initError, w'))"

definition InitVerification ::
  "'f env \<Rightarrow> 'f config \<Rightarrow> time \<Rightarrow> world \<Rightarrow> string \<Rightarrow> string \<Rightarrow> string \<Rightarrow> error option \<times> world" where
  "InitVerification env cfg now w username e164PhoneNumber countryCode =
     (case client_Get w (EncodeUserIdentifier env username) of
        (Inl err, w1) \<Rightarrow>
          if IsNotFound err then (Some (NewNotFoundError err ''usersignup not found''), w1)
          else (Some (NewInternalError err
                  (''error retrieving usersignup with username '' @ [CHR 0x27] @ username @ [CHR 0x27])), w1)
      | (Inr signup, w1) \<Rightarrow>
          if \<not> VerificationRequired signup
          then (Some (NewBadRequest ''forbidden request'' ''verification code will not be sent''), w1)
          else
            (case PhoneNumberAlreadyInUse env w1 username e164PhoneNumber of
               (Some err, w2) \<Rightarrow>
                 if IsCrtForbidden err
                 then (Some (NewForbiddenError ''phone number already in use''
                               (''cannot register using phone number: '' @ e164PhoneNumber)), w2)
                 else (Some (NewInternalError err ''could not lookup users by phone number''), w2)
             | (None, w2) \<Rightarrow>
                 (let phoneHash = EncodeString env e164PhoneNumber;
                      labelValues = [UserSignupUserPhoneHashLabelKey \<mapsto> phoneHash];
                      verificationCounter =
                        map_index (Annotations signup) UserSignupVerificationCounterAnnotationKey;
                      dailyLimit = DailyLimit cfg;
                      (counter, annotationValues) =
                        InitVerification_window env now signup
                          (InitVerification_counter dailyLimit verificationCounter)
                  in if dailyLimit <=s counter
                     then InitVerification_update env username labelValues annotationValues
                            (Some (NewForbiddenError ''daily limit exceeded''
                                     ''cannot generate new verification code'')) w2
                     else
                       (case generateVerificationCode w2 of
                          (Inl err, w3) \<Rightarrow>
                            (Some (NewInternalError err ''error while generating verification code''), w3)
                        | (Inr verificationCode, w3) \<Rightarrow>
                            (let annotationValues' = annotationValues
                                   (UserVerificationAttemptsAnnotationKey \<mapsto> ''0'',
                                    UserSignupVerificationCounterAnnotationKey \<mapsto> Itoa (counter + 1),
                                    UserSignupVerificationCodeAnnotationKey \<mapsto> verificationCode,
                                    UserVerificationExpiryAnnotationKey \<mapsto>
                                      time_Format env (Time_Add now (CodeExpiresInMin cfg * Minute)));
                                 content = MessageTemplate cfg verificationCode
                             in case SendNotification w3 content e164PhoneNumber countryCode of
                                  (Some err, w4) \<Rightarrow>
                                    (Some (NewInternalError err ''error while sending verification code''), w4)
                                | (None, w4) \<Rightarrow>
                                    InitVerification_update env username labelValues annotationValues'
                                      None w4)))))"

section \<open>VerifyPhoneCode\<close>

definition checkRequiredManualApproval :: "'f env \<Rightarrow> 'f config \<Rightarrow> UserSignup \<Rightarrow> error option" where
  "checkRequiredManualApproval env cfg signup =
     (case Annotations signup UserSignupCaptchaScoreAnnotationKey of
        None \<Rightarrow> None
      | Some captchaScore \<Rightarrow>
          (case ParseFloat32 env captchaScore of
             Inl parseErr \<Rightarrow> None
           | Inr fscore \<Rightarrow>
               if float32_less env fscore (CaptchaRequiredScore cfg)
               then Some (NewForbiddenError ''verification failed''
                            ''verification is not available at this time'')
               else None))"

text \<open>The reactivation check at the head of \<open>VerifyPhoneCode\<close>.\<close>

definition VerifyPhoneCode_captcha :: "'f env \<Rightarrow> 'f config \<Rightarrow> UserSignup \<Rightarrow> error option" where
  "VerifyPhoneCode_captcha env cfg signup =
     (case Annotations signup UserSignupActivationCounterAnnotationKey of
        Some activationCounterString \<Rightarrow>
          if CaptchaAllowLowScoreReactivation cfg then
            (case Atoi activationCounterString of
               Inl err \<Rightarrow> checkRequiredManualApproval env cfg signup
             | Inr activationCounter \<Rightarrow>
                 if activationCounter = 1 then checkRequiredManualApproval env cfg signup
                 else None)
          else checkRequiredManualApproval env cfg signup
      | None \<Rightarrow> checkRequiredManualApproval env cfg signup)"

text \<open>
  The checks of the attempts, the expiry and the code. The result is the error
  \<open>verificationErr\<close>, the annotations to set, the annotations to delete, and whether the
  verification-required state is to be unset.
\<close>

definition VerifyPhoneCode_checks ::
  "'f env \<Rightarrow> 'f config \<Rightarrow> time \<Rightarrow> UserSignup \<Rightarrow> string
     \<Rightarrow> error option \<times> (string \<rightharpoonup> string) \<times> string list \<times> bool" where
  "VerifyPhoneCode_checks env cfg now signup code =
     (let (attemptsMade, annotationValues) =
            (case Atoi (map_index (Annotations signup) UserVerificationAttemptsAnnotationKey) of
               Inl convErr \<Rightarrow>
                 (AttemptsAllowed cfg,
                  [UserVerificationAttemptsAnnotationKey \<mapsto> Itoa (AttemptsAllowed cfg)])
             | Inr n \<Rightarrow> (n, Map.empty));
          verificationErr1 =
            (if AttemptsAllowed cfg <=s attemptsMade
             then Some (NewTooManyRequestsError ''too many verification attempts'' [])
             else None);
          verificationErr2 =
            (if verificationErr1 = None then
               (case time_Parse env (map_index (Annotations signup) UserVerificationExpiryAnnotationKey) of
                  Inl parseErr \<Rightarrow> Some (NewInternalError parseErr ''error parsing expiry timestamp'')
                | Inr exp \<Rightarrow>
                    if Time_After now exp
                    then Some (NewForbiddenError ''expired'' ''verification code expired'')
                    else None)
             else verificationErr1);
          (verificationErr3, annotationValues') =
            (if verificationErr2 = None
                \<and> code \<noteq> map_index (Annotations signup) UserSignupVerificationCodeAnnotationKey
             then (Some (NewForbiddenError ''invalid code'' ''the provided code is invalid''),
                   annotationValues(UserVerificationAttemptsAnnotationKey \<mapsto> Itoa (attemptsMade + 1)))
             else (verificationErr2, annotationValues))
      in if verificationErr3 = None
         then (verificationErr3, annotationValues',
               [UserSignupVerificationCodeAnnotationKey, UserVerificationAttemptsAnnotationKey,
                UserSignupVerificationCounterAnnotationKey,
                UserSignupVerificationInitTimestampAnnotationKey,
                UserVerificationExpiryAnnotationKey], True)
         else (verificationErr3, annotationValues', [], False))"

text \<open>The closure \<open>doUpdate\<close> of \<open>VerifyPhoneCode\<close>.\<close>

definition VerifyPhoneCode_doUpdate ::
  "'f env \<Rightarrow> string \<Rightarrow> bool \<Rightarrow> (string \<rightharpoonup> string) \<Rightarrow> string list \<Rightarrow> world \<Rightarrow> error option \<times> world" where
  "VerifyPhoneCode_doUpdate env username unsetVerificationRequired annotationValues annotationsToDelete w =
     (case client_Get w (EncodeUserIdentifier env username) of
        (Inl err, w1) \<Rightarrow> (Some err, w1)
      | (Inr signup, w1) \<Rightarrow>
          (let signup1 = (if unsetVerificationRequired then SetVerificationRequired signup False
                          else signup);
               signup2 = signup1\<lparr>Annotations := Annotations signup1 ++ annotationValues\<rparr>;
               signup3 = signup2\<lparr>Annotations :=
                           fold (\<lambda>annotationName m. m(annotationName := None)) annotationsToDelete
                             (Annotations signup2)\<rparr>
           in client_Update w1 signup3))"

definition VerifyPhoneCode ::
  "'f env \<Rightarrow> 'f config \<Rightarrow> time \<Rightarrow> world \<Rightarrow> string \<Rightarrow> string \<Rightarrow> error option \<times> world" where
  "VerifyPhoneCode env cfg now w username code =
     (case client_Get w (EncodeUserIdentifier env username) of
        (Inl err, w1) \<Rightarrow>
          if IsNotFound err then (Some (NewNotFoundError err ''user not found''), w1)
          else (Some (NewInternalError err
                  (''error retrieving usersignup with username '' @ [CHR 0x27] @ username @ [CHR 0x27])), w1)
      | (Inr signup, w1) \<Rightarrow>
          (case VerifyPhoneCode_captcha env cfg signup of
             Some err \<Rightarrow> (Some err, w1)
           | None \<Rightarrow>
               (case PhoneNumberAlreadyInUse env w1 username
                       (map_index (Labels signup) UserSignupUserPhoneHashLabelKey) of
                  (Some err, w2) \<Rightarrow>
                    (Some (NewBadRequest ''phone number already in use''
                       ''the phone number provided for this signup is already in use by an active account''), w2)
                | (None, w2) \<Rightarrow>
                    (case VerifyPhoneCode_checks env cfg now signup code of
                       (verificationErr, annotationValues, annotationsToDelete, unsetVerificationRequired) \<Rightarrow>
                         (case PollUpdateSignup env
                                 (VerifyPhoneCode_doUpdate env username unsetVerificationRequired
                                    annotationValues annotationsToDelete) w2 of
                            (Some updateErr, w3) \<Rightarrow> (Some updateAccountError, w3)
                          | (None, w3) \<Rightarrow> (verificationErr, w3))))))"

section \<open>VerifyActivationCode\<close>

definition checkAttempts :: "'f config \<Rightarrow> UserSignup \<Rightarrow> error + goint" where
  "checkAttempts cfg signup =
     (case Annotations signup UserVerificationAttemptsAnnotationKey of
        None \<Rightarrow> Inr 0
      | Some v \<Rightarrow>
          if v = [] then Inr 0
          else
            (case Atoi v of
               Inl err \<Rightarrow>
                 Inl (NewInternalError err
                        (''error converting annotation ['' @ UserVerificationAttemptsAnnotationKey
                           @ ''] value ['' @ v @ ''] to integer, on UserSignup: ['' @ Name signup @ '']''))
             | Inr attemptsMade \<Rightarrow>
                 if AttemptsAllowed cfg <=s attemptsMade
                 then Inl (NewTooManyRequestsError ''too many verification attempts'' v)
                 else Inr attemptsMade))"

text \<open>
  Modelled from the spec: \<open>GetAndValidateSocialEvent\<close> (pkg/signup) is not among the sources.
  Section 4.2: the SocialEvent named by the code must exist, the present must be within
  \<open>[start_time, end_time]\<close>, and \<open>activation_count < max_attendees\<close>; any failure is a 403.
  A lookup that fails for another reason than absence is an internal error (section 7).
\<close>

definition GetAndValidateSocialEvent :: "time \<Rightarrow> world \<Rightarrow> string \<Rightarrow> (error + SocialEvent) \<times> world" where
  "GetAndValidateSocialEvent now cl code =
     (case client_Get_SocialEvent cl code of
        (Inl err, cl1) \<Rightarrow>
          if IsNotFound err
          then (Inl (NewForbiddenError ''invalid code'' ''the provided code is invalid''), cl1)
          else (Inl (NewInternalError err (''error retrieving event '' @ [CHR 0x27] @ code @ [CHR 0x27])), cl1)
      | (Inr event, cl1) \<Rightarrow>
          if \<not> (StartTime event \<le> now \<and> now \<le> EndTime event)
          then (Inl (NewForbiddenError ''invalid code'' ''the provided code is invalid''), cl1)
          else if \<not> (ActivationCount event <s MaxAttendees event)
          then (Inl (NewForbiddenError ''invalid code'' ''the event is full''), cl1)
          else (Inr event, cl1))"

text \<open>
  Modelled from the spec: \<open>UpdateUserSignupWithSocialEvent\<close> (pkg/signup) is not among the
  sources. Section 4.2: applying the event clears \<open>verification_required\<close>, clears
  \<open>deactivated\<close> and sets the label \<open>social_event_name\<close> to the code, which is the name of
  the event.
\<close>

definition UpdateUserSignupWithSocialEvent :: "SocialEvent \<Rightarrow> UserSignup \<Rightarrow> UserSignup" where
  "UpdateUserSignupWithSocialEvent event signup =
     (let signup1 = SetVerificationRequired signup False;
          signup2 = SetDeactivated signup1 False
      in signup2\<lparr>Labels := (Labels signup2)(SocialEventUserSignupLabelKey \<mapsto> EventName event)\<rparr>)"

text \<open>
  The closure \<open>doUpdate\<close> of \<open>VerifyActivationCode\<close>. It writes the variables
  \<open>attemptsMade\<close> and \<open>errToReturn\<close> of the enclosing function, which are therefore part of
  its state.
\<close>

definition VerifyActivationCode_doUpdate ::
  "'f env \<Rightarrow> time \<Rightarrow> string \<Rightarrow> string \<Rightarrow> goint \<times> error option \<times> world
     \<Rightarrow> error option \<times> (goint \<times> error option \<times> world)" where
  "VerifyActivationCode_doUpdate env now username code st =
     (case st of (attemptsMade, errToReturn, w) \<Rightarrow>
        (case client_Get w (EncodeUserIdentifier env username) of
           (Inl err, w1) \<Rightarrow> (Some err, (attemptsMade, errToReturn, w1))
         | (Inr signup, w1) \<Rightarrow>
             (case GetAndValidateSocialEvent now w1 code of
                (Inl err, w2) \<Rightarrow>
                  (let attemptsMade' = attemptsMade + 1;
                       signup' = signup\<lparr>Annotations := (Annotations signup)
                                   (UserVerificationAttemptsAnnotationKey \<mapsto> Itoa attemptsMade')\<rparr>
                   in case client_Update w2 signup' of
                        (res, w3) \<Rightarrow> (res, (attemptsMade', Some err, w3)))
              | (Inr event, w2) \<Rightarrow>
                  (let signup1 = UpdateUserSignupWithSocialEvent event signup;
                       signup' = signup1\<lparr>Annotations := (Annotations signup1)
                                   (UserVerificationAttemptsAnnotationKey := None)\<rparr>
                   in case client_Update w2 signup' of
                        (res, w3) \<Rightarrow> (res, (attemptsMade, errToReturn, w3))))))"

definition VerifyActivationCode ::
  "'f env \<Rightarrow> 'f config \<Rightarrow> time \<Rightarrow> world \<Rightarrow> string \<Rightarrow> string \<Rightarrow> error option \<times> world" where
  "VerifyActivationCode env cfg now w username code =
     (case client_Get w (EncodeUserIdentifier env username) of
        (Inl err, w1) \<Rightarrow>
          if IsNotFound err then SignupService_Signup env username code w1
          else (Some (NewInternalError err
                  (''error retrieving usersignup with username '' @ [CHR 0x27] @ username @ [CHR 0x27])), w1)
      | (Inr signup, w1) \<Rightarrow>
          (case checkAttempts cfg signup of
             Inl err \<Rightarrow> (Some err, w1)
           | Inr attemptsMade \<Rightarrow>
               (case PollUpdateSignup env (VerifyActivationCode_doUpdate env now username code)
                       (attemptsMade, None, w1) of
                  (Some err, (attemptsMade', errToReturn, w2)) \<Rightarrow>
                    (if errToReturn = None then Some err else errToReturn, w2)
                | (None, (attemptsMade', errToReturn, w2)) \<Rightarrow> (errToReturn, w2))))"

section \<open>Observations on a run\<close>

text \<open>The calls that send an SMS, and the calls that update a UserSignup.\<close>

fun isSend :: "call \<Rightarrow> bool" where
  "isSend (CallSend content phoneNumber countryCode) = True"
| "isSend _ = False"

fun isUpdate :: "call \<Rightarrow> bool" where
  "isUpdate (CallUpdate name) = True"
| "isUpdate _ = False"

text \<open>The calls a run has added to the trace of the world it started in.\<close>

definition calls_of :: "world \<Rightarrow> world \<Rightarrow> call list" where
  "calls_of w w' = drop (length (trace w)) (trace w')"

text \<open>
  A step that only reads: the stored UserSignups and the outcomes scripted for the SMS
  sender are as before, and no SMS was sent and no update attempted.
\<close>

definition reads_only :: "world \<Rightarrow> world \<Rightarrow> bool" where
  "reads_only w w' =
     (UserSignups w' = UserSignups w \<and> send_faults w' = send_faults w
      \<and> take (length (trace w)) (trace w') = trace w \<and> length (trace w) \<le> length (trace w')
      \<and> \<not> list_ex isSend (calls_of w w') \<and> \<not> list_ex isUpdate (calls_of w w'))"

text \<open>A step that sends no SMS.\<close>

definition sends_nothing :: "world \<Rightarrow> world \<Rightarrow> bool" where
  "sends_nothing w w' =
     (take (length (trace w)) (trace w') = trace w \<and> length (trace w) \<le> length (trace w')
      \<and> \<not> list_ex isSend (calls_of w w'))"

text \<open>The states in which the update loop invokes the closure, in order.\<close>

fun PollUpdateSignup_states ::
  "nat \<Rightarrow> (error \<Rightarrow> bool) \<Rightarrow> ('s \<Rightarrow> error option \<times> 's) \<Rightarrow> 's \<Rightarrow> 's list" where
  "PollUpdateSignup_states 0 retriable updater s = [s]"
| "PollUpdateSignup_states (Suc n) retriable updater s =
     (case updater s of
        (None, s') \<Rightarrow> [s]
      | (Some err, s') \<Rightarrow>
          if retriable err then s # PollUpdateSignup_states n retriable updater s' else [s])"

text \<open>
  The validation error met by the iteration of \<open>VerifyActivationCode\<close>'s closure that starts
  in the given state, if there is one.
\<close>

definition VerifyActivationCode_validationErr ::
  "'f env \<Rightarrow> time \<Rightarrow> string \<Rightarrow> string \<Rightarrow> goint \<times> error option \<times> world \<Rightarrow> error option" where
  "VerifyActivationCode_validationErr env now username code st =
     (case st of (attemptsMade, errToReturn, w) \<Rightarrow>
        (case client_Get w (EncodeUserIdentifier env username) of
           (Inl err, w1) \<Rightarrow> None
         | (Inr signup, w1) \<Rightarrow>
             (case GetAndValidateSocialEvent now w1 code of
                (Inl err, w2) \<Rightarrow> Some err
              | (Inr event, w2) \<Rightarrow> None)))"

section \<open>Sample configuration and resources\<close>

text \<open>
  A small environment on which the functions can be run: user identifiers are their own
  encoding, every string hashes to the MD5 digest of the empty string, captcha scores are
  counted in tenths, and timestamps are written as decimal numbers.
\<close>

definition sample_env :: "int env" where
  "sample_env =
     \<lparr>EncodeUserIdentifier = (\<lambda>u. u),
      EncodeString = (\<lambda>s. ''d41d8cd98f00b204e9800998ecf8427e''),
      ParseFloat32 = (\<lambda>s. if s = ''0.1'' then Inr 1 else if s = ''0.9'' then Inr 9
                           else Inl (ErrorString ''invalid syntax'')),
      float32_less = (<),
      time_Parse = (\<lambda>s. case Atoi s of Inl err \<Rightarrow> Inl err | Inr n \<Rightarrow> Inr (sint n)),
      time_Format = (\<lambda>t. Itoa (word_of_int t)),
      poll_retries = 4,
      poll_retriable = (\<lambda>err. True),
      SignupService_Signup = (\<lambda>username code w. (None, w))\<rparr>"

definition sample_cfg :: "int config" where
  "sample_cfg =
     \<lparr>DailyLimit = 5, AttemptsAllowed = 3, CodeExpiresInMin = 5,
      MessageTemplate = (\<lambda>code. ''Your verification code is '' @ code),
      CaptchaRequiredScore = 5, CaptchaAllowLowScoreReactivation = True\<rparr>"

definition johnny :: UserSignup where
  "johnny =
     \<lparr>Name = ''johnny'', PreferredUsername = ''johnny'', States = [''verification-required''],
      Labels = Map.empty,
      Annotations = [UserVerificationAttemptsAnnotationKey \<mapsto> ''0'',
                     UserSignupVerificationCodeAnnotationKey \<mapsto> ''999888'',
                     UserVerificationExpiryAnnotationKey \<mapsto> ''2000'']\<rparr>"

definition sample_world :: world where
  "sample_world =
     \<lparr>UserSignups = [johnny], BannedUsers = [], SocialEvents = [],
      get_faults = [], list_faults = [], update_faults = [], send_faults = [],
      entropy = [1, 12, 23, 34, 45, 56], trace = []\<rparr>"

text \<open>
  The same signup with an activation counter of zero and a captcha score of 0.1, below the
  required score of the sample configuration.
\<close>

definition johnny_low_score :: UserSignup where
  "johnny_low_score =
     johnny\<lparr>Annotations := (Annotations johnny)
       (UserSignupActivationCounterAnnotationKey \<mapsto> ''0'',
        UserSignupCaptchaScoreAnnotationKey \<mapsto> ''0.1'')\<rparr>"

text \<open>The same signup with an activation counter of one.\<close>

definition johnny_first_activation :: UserSignup where
  "johnny_first_activation =
     johnny\<lparr>Annotations := (Annotations johnny)
       (UserSignupActivationCounterAnnotationKey \<mapsto> ''1'',
        UserSignupCaptchaScoreAnnotationKey \<mapsto> ''0.1'')\<rparr>"

text \<open>A banned phone: the hash that the signup's (absent) phone label resolves to.\<close>

definition banned_phone :: BannedUser where
  "banned_phone =
     \<lparr>BannedUserLabels = [BannedUserPhoneNumberHashLabelKey \<mapsto> ''d41d8cd98f00b204e9800998ecf8427e'']\<rparr>"

text \<open>A conflict on each of the five updates the sample retry policy allows.\<close>

definition conflicts :: "error option list" where
  "conflicts = replicate 5 (Some (StatusError Conflict ''the object has been modified''))"

text \<open>A social event that is open at the times of the samples and has room.\<close>

definition sample_event :: SocialEvent where
  "sample_event =
     \<lparr>EventName = ''event'', StartTime = 0, EndTime = 5000, MaxAttendees = 10, ActivationCount = 2\<rparr>"

section \<open>Properties of the proxy\<close>

lemma Split_from_nonempty: "Split_from sep acc s \<noteq> []"
  by (induction sep acc s rule: Split_from.induct) auto

lemma Split_from_length:
  "sep \<noteq> [] \<Longrightarrow> (2 \<le> length (Split_from sep acc s)) = (\<exists>p q. s = p @ sep @ q)"
proof (induction sep acc s rule: Split_from.induct)
  case (1 sep acc)
  then show ?case by simp
next
  case (2 sep acc c cs)
  show ?case
  proof (cases "take (length sep) (c # cs) = sep")
    case True
    have "c # cs = [] @ sep @ drop (length sep) (c # cs)"
      using True by (metis append_Nil append_take_drop_id)
    then have "\<exists>p q. c # cs = p @ sep @ q" by blast
    moreover have "2 \<le> length (Split_from sep acc (c # cs))"
      using True 2(3) Split_from_nonempty [of sep "[]" "drop (length sep) (c # cs)"]
      by (cases "Split_from sep [] (drop (length sep) (c # cs))") auto
    ultimately show ?thesis by simp
  next
    case False
    have "(\<exists>p q. c # cs = p @ sep @ q) = (\<exists>p q. cs = p @ sep @ q)"
    proof
      assume "\<exists>p q. c # cs = p @ sep @ q"
      then obtain p q where pq: "c # cs = p @ sep @ q" by blast
      show "\<exists>p q. cs = p @ sep @ q"
      proof (cases p)
        case Nil
        then have "take (length sep) (c # cs) = sep" using pq by simp
        then show ?thesis using False by simp
      next
        case (Cons a p')
        then have "cs = p' @ sep @ q" using pq by simp
        then show ?thesis by blast
      qed
    next
      assume "\<exists>p q. cs = p @ sep @ q"
      then obtain p q where "cs = p @ sep @ q" by blast
      then have "c # cs = (c # p) @ sep @ q" by simp
      then show "\<exists>p q. c # cs = p @ sep @ q" by blast
    qed
    then show ?thesis using False 2 by simp
  qed
qed

lemma Split_from_no_occurrence:
  "sep \<noteq> [] \<Longrightarrow> \<not> (\<exists>p q. s = p @ sep @ q) \<Longrightarrow> Split_from sep acc s = [rev acc @ s]"
proof (induction sep acc s rule: Split_from.induct)
  case (1 sep acc)
  then show ?case by simp
next
  case (2 sep acc c cs)
  have nt: "take (length sep) (c # cs) \<noteq> sep"
  proof
    assume "take (length sep) (c # cs) = sep"
    then have "c # cs = [] @ sep @ drop (length sep) (c # cs)"
      by (metis append_Nil append_take_drop_id)
    then show False using 2(4) by blast
  qed
  have "\<not> (\<exists>p q. cs = p @ sep @ q)"
  proof
    assume "\<exists>p q. cs = p @ sep @ q"
    then obtain p q where "cs = p @ sep @ q" by blast
    then have "c # cs = (c # p) @ sep @ q" by simp
    then show False using 2(4) by blast
  qed
  then show ?case using nt 2 by simp
qed

lemma Split_from_at_separator:
  "sep \<noteq> [] \<Longrightarrow> Split_from sep acc (sep @ t) = rev acc # Split_from sep [] t"
  by (cases sep) auto

text \<open>
  Claim C9, as the code has it. A token is extracted exactly when the value of the
  \<open>Authorization\<close> header contains \<open>"Bearer "\<close> somewhere (whatever precedes it); a header
  of the form \<open>Bearer <token>\<close> yields \<open><token>\<close> when the token does not itself contain
  \<open>"Bearer "\<close>; and a request without the header is answered with 401 Unauthorized and a
  plain-text body that contains \<open>no token found\<close>.
\<close>

theorem extractUserToken_bearer:
  "((\<exists>t. extractUserToken req = Inr t) =
      (\<exists>p q. Header_Get (Header req) ''Authorization'' = p @ ''Bearer '' @ q))
   \<and> (Header_Get (Header req) ''Authorization'' = ''Bearer '' @ t
        \<and> \<not> (\<exists>p q. t = p @ ''Bearer '' @ q) \<longrightarrow> extractUserToken req = Inr t)
   \<and> (Header req ''Authorization'' = None \<longrightarrow>
        handleRequestAndRedirect px req =
          (401, ''text/plain; charset=utf-8'',
           ''unable to create a context: '' @ ''no token found'' @ '': a Bearer token is expected'' @ [CHR 0x0A]))"
proof (intro conjI impI)
  let ?a = "Header_Get (Header req) ''Authorization''"
  have "(\<exists>t. extractUserToken req = Inr t) = (2 \<le> length (Split_from ''Bearer '' [] ?a))"
    by (auto simp: extractUserToken_def Split_def Let_def)
  also have "\<dots> = (\<exists>p q. ?a = p @ ''Bearer '' @ q)"
    by (rule Split_from_length) simp
  finally show "(\<exists>t. extractUserToken req = Inr t) = (\<exists>p q. ?a = p @ ''Bearer '' @ q)" .
next
  assume h: "Header_Get (Header req) ''Authorization'' = ''Bearer '' @ t
              \<and> \<not> (\<exists>p q. t = p @ ''Bearer '' @ q)"
  have "Split_from ''Bearer '' [] (''Bearer '' @ t) = [[], t]"
    using Split_from_at_separator [of "''Bearer ''" "[]" t]
      Split_from_no_occurrence [of "''Bearer ''" t "[]"] h by simp
  then show "extractUserToken req = Inr t"
    using h by (simp add: extractUserToken_def Split_def Let_def)
next
  assume "Header req ''Authorization'' = None"
  then show "handleRequestAndRedirect px req =
          (401, ''text/plain; charset=utf-8'',
           ''unable to create a context: '' @ ''no token found'' @ '': a Bearer token is expected'' @ [CHR 0x0A])"
    by (simp add: handleRequestAndRedirect_def createContext_def extractUserID_def
        extractUserToken_def Header_Get_def Split_def responseWithError_def
        NewUnauthorizedError_def StatusUnauthorized_def)
qed

text \<open>Witness for C9: a well-formed header, and a request without the header.\<close>

theorem extractUserToken_bearer_witness:
  "extractUserToken \<lparr>Header = [''Authorization'' \<mapsto> [''Bearer abc'']]\<rparr> = Inr ''abc''
   \<and> handleRequestAndRedirect
        \<lparr>tokenParser_FromString = (\<lambda>t. Inr t), namespaces_GetNamespace = (\<lambda>u. Inr u),
         reverseProxy_ServeHTTP = (\<lambda>ns r. (200, [], []))\<rparr>
        \<lparr>Header = Map.empty\<rparr> =
      (401, ''text/plain; charset=utf-8'',
       ''unable to create a context: no token found: a Bearer token is expected'' @ [CHR 0x0A])"
proof -
  have no: "\<not> (\<exists>p q. ''abc'' = p @ ''Bearer '' @ q)"
  proof
    assume "\<exists>p q. ''abc'' = p @ ''Bearer '' @ q"
    then obtain p q where "''abc'' = p @ ''Bearer '' @ q" by blast
    then have "length ''abc'' = length (p @ ''Bearer '' @ q)" by (rule arg_cong)
    then show False by simp
  qed
  show ?thesis
    using no
      extractUserToken_bearer [of "\<lparr>Header = [''Authorization'' \<mapsto> [''Bearer abc'']]\<rparr>" "''abc''"
        "\<lparr>tokenParser_FromString = (\<lambda>t. Inr t), namespaces_GetNamespace = (\<lambda>u. Inr u),
         reverseProxy_ServeHTTP = (\<lambda>ns r. (200, [], []))\<rparr>"]
      extractUserToken_bearer [of "\<lparr>Header = Map.empty\<rparr>" "[]"
        "\<lparr>tokenParser_FromString = (\<lambda>t. Inr t), namespaces_GetNamespace = (\<lambda>u. Inr u),
         reverseProxy_ServeHTTP = (\<lambda>ns r. (200, [], []))\<rparr>"]
    by (simp add: Header_Get_def)
qed

text \<open>
  Counterexample to C9 as stated: a header that does not start with \<open>Bearer\<close> is accepted,
  and the text after the embedded \<open>"Bearer "\<close> is taken as the token.
\<close>

theorem extractUserToken_exact_form_counterexample:
  "extractUserToken \<lparr>Header = [''Authorization'' \<mapsto> [''Basic xBearer tok'']]\<rparr> = Inr ''tok''
   \<and> take 7 ''Basic xBearer tok'' \<noteq> ''Bearer ''"
  by (simp add: extractUserToken_def Header_Get_def Split_def)

section \<open>Properties of the verification service\<close>

subsection \<open>Decimal conversion and signed arithmetic\<close>

lemma sint_succ:
  fixes a b :: goint
  assumes "a <s b"
  shows "sint (a + 1) = sint a + 1"
proof -
  have "sint a < sint b" using assms by (simp add: word_sless_alt)
  moreover have "sint b < 2 ^ 63" using sint_lt [of b] by simp
  moreover have "- (2 ^ 63) \<le> sint a" using sint_ge [of a] by simp
  ultimately have r: "- (2 ^ 63) \<le> sint a + 1" "sint a + 1 < 2 ^ 63" by linarith+
  have "sint (a + 1) = signed_take_bit 63 (sint a + sint (1 :: goint))"
    by (simp add: sint_word_ariths)
  also have "\<dots> = signed_take_bit 63 (sint a + 1)" by simp
  also have "\<dots> = sint a + 1" using r by (simp add: signed_take_bit_int_eq_self)
  finally show ?thesis .
qed

lemma digit_char_props:
  assumes "d < 10"
  shows "isDigit (digit_char d) \<and> digit_val (digit_char d) = int d
         \<and> digit_char d \<noteq> CHR ''-'' \<and> digit_char d \<noteq> CHR ''+''"
proof -
  from assms have "d \<in> {0, 1, 2, 3, 4, 5, 6, 7, 8, 9}" by auto
  then show ?thesis
    by (auto simp: digit_char_def isDigit_def digit_val_def)
qed

lemma decimal_val_snoc: "decimal_val (ds @ [c]) = 10 * decimal_val ds + digit_val c"
  by (simp add: decimal_val_def)

lemma int_decimal_props:
  "0 \<le> n \<Longrightarrow>
     int_decimal n \<noteq> [] \<and> list_all isDigit (int_decimal n) \<and> decimal_val (int_decimal n) = n
     \<and> hd (int_decimal n) \<noteq> CHR ''-'' \<and> hd (int_decimal n) \<noteq> CHR ''+''"
proof (induction n rule: int_decimal.induct)
  case (1 n)
  show ?case
  proof (cases "n < 10")
    case True
    then have "nat n < 10" by simp
    from digit_char_props [OF this] show ?thesis
      using True 1(2) by (simp add: int_decimal.simps [of n] decimal_val_def)
  next
    case False
    have m: "nat (n mod 10) < 10" by simp
    have eq: "int_decimal n = int_decimal (n div 10) @ [digit_char (nat (n mod 10))]"
      using False by (simp add: int_decimal.simps [of n])
    have d: "0 \<le> n div 10" using 1(2) by simp
    have "n = 10 * (n div 10) + n mod 10" by simp
    moreover have "int (nat (n mod 10)) = n mod 10" by simp
    ultimately show ?thesis
      using 1(1) [OF False d] digit_char_props [OF m] eq
      by (simp add: decimal_val_snoc)
  qed
qed

lemma Atoi_Itoa: "Atoi (Itoa i) = Inr i"
proof (cases "sint i < 0")
  case True
  let ?ds = "int_decimal (- sint i)"
  have p: "?ds \<noteq> []" "list_all isDigit ?ds" "decimal_val ?ds = - sint i"
    using int_decimal_props [of "- sint i"] True by simp_all
  have v: "- decimal_val ?ds = sint i" using p(3) by simp
  have r: "- (2 ^ 63) \<le> sint i" "sint i < 2 ^ 63" using sint_ge [of i] sint_lt [of i] by simp_all
  have "Atoi (CHR ''-'' # ?ds) = Inr (word_of_int (sint i))"
    using p(1,2) v r by (simp add: Atoi_def Let_def)
  then show ?thesis using True by (simp add: Itoa_def Let_def)
next
  case False
  let ?ds = "int_decimal (sint i)"
  have p: "?ds \<noteq> []" "list_all isDigit ?ds" "decimal_val ?ds = sint i"
    "hd ?ds \<noteq> CHR ''-''" "hd ?ds \<noteq> CHR ''+''"
    using int_decimal_props [of "sint i"] False by simp_all
  have r: "- (2 ^ 63) \<le> sint i" "sint i < 2 ^ 63" using sint_ge [of i] sint_lt [of i] by simp_all
  have "Atoi ?ds = Inr (word_of_int (sint i))"
    using p r by (simp add: Atoi_def Let_def)
  then show ?thesis using False by (simp add: Itoa_def Let_def)
qed

subsection \<open>The update loop and the client\<close>

lemma pair_fst: "fst p = a \<Longrightarrow> p = (a, snd p)"
  by (cases p) simp



lemma PollUpdateSignup_loop_success:
  "PollUpdateSignup_loop n retriable updater s = (None, s') \<Longrightarrow> \<exists>s0. updater s0 = (None, s')"
proof (induction n arbitrary: s)
  case 0
  then show ?case by auto
next
  case (Suc n)
  show ?case
  proof (cases "updater s")
    case (Pair r s1)
    show ?thesis
    proof (cases r)
      case None
      then show ?thesis using Suc.prems Pair by auto
    next
      case (Some err)
      then show ?thesis using Suc Pair by (auto split: if_splits)
    qed
  qed
qed

lemma PollUpdateSignup_success:
  "PollUpdateSignup env updater s = (None, s') \<Longrightarrow> \<exists>s0. updater s0 = (None, s')"
  unfolding PollUpdateSignup_def by (rule PollUpdateSignup_loop_success)


lemma client_Get_Inr:
  "client_Get w name = (Inr signup, w1) \<Longrightarrow>
     find (\<lambda>s. Name s = name) (UserSignups w) = Some signup \<and> UserSignups w1 = UserSignups w"
  by (auto simp: client_Get_def Let_def split: prod.splits option.splits)

lemma find_Name: "find (\<lambda>s. Name s = name) xs = Some x \<Longrightarrow> Name x = name"
  by (induction xs) (auto split: if_splits)

lemma find_replaced:
  "find (\<lambda>s. Name s = Name x) xs = Some old \<Longrightarrow>
   find (\<lambda>s. Name s = Name x) (map (\<lambda>s. if Name s = Name x then x else s) xs) = Some x"
  by (induction xs) (auto split: if_splits)

lemma client_Update_None:
  "client_Update w signup = (None, w') \<Longrightarrow>
     find (\<lambda>s. Name s = Name signup) (UserSignups w') = Some signup"
  by (auto simp: client_Update_def Let_def find_replaced split: prod.splits option.splits)

lemma fold_delete_other:
  "k \<notin> set ks \<Longrightarrow> fold (\<lambda>a m. m(a := None)) ks m k = m k"
  by (induction ks arbitrary: m) auto

lemma fold_delete:
  "k \<in> set ks \<Longrightarrow> fold (\<lambda>a m. m(a := None)) ks m k = None"
proof (induction ks arbitrary: m)
  case Nil
  then show ?case by simp
next
  case (Cons a ks)
  show ?case
  proof (cases "k \<in> set ks")
    case True
    then show ?thesis using Cons.IH by (simp del: fun_upd_apply)
  next
    case False
    then have "k = a" using Cons.prems by simp
    then have "fold (\<lambda>a m. m(a := None)) ks (m(a := None)) k = None"
      using fold_delete_other [OF False, of "m(a := None)"] by simp
    then show ?thesis by (simp del: fun_upd_apply)
  qed
qed

lemma VerifyPhoneCode_doUpdate_None:
  assumes "VerifyPhoneCode_doUpdate env username unset annotationValues annotationsToDelete w0 = (None, w')"
  shows "\<exists>signup'. find (\<lambda>s. Name s = EncodeUserIdentifier env username) (UserSignups w') = Some signup'
           \<and> (unset \<longrightarrow> \<not> VerificationRequired signup')
           \<and> (\<forall>k \<in> set annotationsToDelete. Annotations signup' k = None)
           \<and> (\<forall>k. k \<notin> set annotationsToDelete \<longrightarrow> annotationValues k \<noteq> None \<longrightarrow> Annotations signup' k = annotationValues k)"
proof -
  obtain signup w1 where get: "client_Get w0 (EncodeUserIdentifier env username) = (Inr signup, w1)"
    using assms by (auto simp: VerifyPhoneCode_doUpdate_def split: prod.splits sum.splits)
  define signup3 where "signup3 =
     (if unset then SetVerificationRequired signup False else signup)
       \<lparr>Annotations := fold (\<lambda>annotationName m. m(annotationName := None)) annotationsToDelete
          (Annotations (if unset then SetVerificationRequired signup False else signup) ++ annotationValues)\<rparr>"
  have upd: "client_Update w1 signup3 = (None, w')"
    using assms get by (simp add: VerifyPhoneCode_doUpdate_def signup3_def Let_def)
  have name: "Name signup3 = EncodeUserIdentifier env username"
    using client_Get_Inr [OF get] find_Name [of "EncodeUserIdentifier env username" "UserSignups w0" signup]
    by (simp add: signup3_def SetVerificationRequired_def setState_def)
  have "find (\<lambda>s. Name s = EncodeUserIdentifier env username) (UserSignups w') = Some signup3"
    using client_Update_None [OF upd] name by simp
  moreover have "unset \<longrightarrow> \<not> VerificationRequired signup3"
    by (simp add: signup3_def VerificationRequired_def SetVerificationRequired_def setState_def)
  moreover have "\<forall>k \<in> set annotationsToDelete. Annotations signup3 k = None"
    by (simp add: signup3_def fold_delete)
  moreover have "\<forall>k. k \<notin> set annotationsToDelete \<longrightarrow> annotationValues k \<noteq> None \<longrightarrow> Annotations signup3 k = annotationValues k"
    by (auto simp: signup3_def fold_delete_other map_add_def split: option.splits)
  ultimately show ?thesis by blast
qed

lemma VerifyPhoneCode_checks_None:
  "VerifyPhoneCode_checks env cfg now signup code = (None, av, dels, unset) \<Longrightarrow>
     unset \<and> dels = [UserSignupVerificationCodeAnnotationKey, UserVerificationAttemptsAnnotationKey,
                UserSignupVerificationCounterAnnotationKey,
                UserSignupVerificationInitTimestampAnnotationKey,
                UserVerificationExpiryAnnotationKey]"
  by (auto simp: VerifyPhoneCode_checks_def Let_def split: prod.splits sum.splits if_splits)


lemma VerifyPhoneCode_checks_None_conditions:
  assumes "VerifyPhoneCode_checks env cfg now signup code = (None, av, dels, unset)"
  shows "code = map_index (Annotations signup) UserSignupVerificationCodeAnnotationKey
         \<and> (\<exists>n. Atoi (map_index (Annotations signup) UserVerificationAttemptsAnnotationKey) = Inr n
                \<and> n <s AttemptsAllowed cfg)
         \<and> (\<exists>exp. time_Parse env (map_index (Annotations signup) UserVerificationExpiryAnnotationKey) = Inr exp
                \<and> \<not> Time_After now exp)"
proof (cases "Atoi (map_index (Annotations signup) UserVerificationAttemptsAnnotationKey)")
  case (Inl convErr)
  then show ?thesis
    using assms by (simp add: VerifyPhoneCode_checks_def split: if_splits)
next
  case (Inr n)
  show ?thesis
  proof (cases "time_Parse env (map_index (Annotations signup) UserVerificationExpiryAnnotationKey)")
    case (Inl parseErr)
    then show ?thesis
      using assms Inr by (simp add: VerifyPhoneCode_checks_def split: if_splits)
  next
    case (Inr exp)
    then show ?thesis
      using assms \<open>Atoi _ = Inr n\<close>
      by (auto simp: VerifyPhoneCode_checks_def word_sle_eq word_sless_alt split: if_splits)
  qed
qed


subsection \<open>VerifyPhoneCode: success\<close>

text \<open>
  Claim C1. Whenever \<open>VerifyPhoneCode\<close> returns without an error, the UserSignup stored
  under the user's encoded name is no longer in the verification-required state and carries
  none of the five verification annotations (code, attempts, counter, init timestamp,
  expiry). Such a call is one in which the UserSignup was read, the captcha gate and the
  phone reuse check passed, the attempts were below the limit, the expiry had not passed and
  the code was the stored one.
\<close>

theorem VerifyPhoneCode_success:
  assumes "VerifyPhoneCode env cfg now w username code = (None, w')"
  shows "(\<exists>signup'. find (\<lambda>s. Name s = EncodeUserIdentifier env username) (UserSignups w') = Some signup'
           \<and> \<not> VerificationRequired signup'
           \<and> Annotations signup' UserSignupVerificationCodeAnnotationKey = None
           \<and> Annotations signup' UserVerificationAttemptsAnnotationKey = None
           \<and> Annotations signup' UserSignupVerificationCounterAnnotationKey = None
           \<and> Annotations signup' UserSignupVerificationInitTimestampAnnotationKey = None
           \<and> Annotations signup' UserVerificationExpiryAnnotationKey = None)
       \<and> (\<exists>signup. find (\<lambda>s. Name s = EncodeUserIdentifier env username) (UserSignups w) = Some signup
           \<and> code = map_index (Annotations signup) UserSignupVerificationCodeAnnotationKey
           \<and> (\<exists>n. Atoi (map_index (Annotations signup) UserVerificationAttemptsAnnotationKey) = Inr n
                  \<and> n <s AttemptsAllowed cfg)
           \<and> (\<exists>exp. time_Parse env (map_index (Annotations signup) UserVerificationExpiryAnnotationKey) = Inr exp
                  \<and> \<not> Time_After now exp)
           \<and> VerifyPhoneCode_captcha env cfg signup = None
           \<and> fst (PhoneNumberAlreadyInUse env (snd (client_Get w (EncodeUserIdentifier env username))) username
                  (map_index (Labels signup) UserSignupUserPhoneHashLabelKey)) = None)"
proof -
  from assms obtain signup w1 w2 av dels unset where
    get: "client_Get w (EncodeUserIdentifier env username) = (Inr signup, w1)"
    and gate: "VerifyPhoneCode_captcha env cfg signup = None"
    and inuse: "PhoneNumberAlreadyInUse env w1 username
                  (map_index (Labels signup) UserSignupUserPhoneHashLabelKey) = (None, w2)"
    and chk: "VerifyPhoneCode_checks env cfg now signup code = (None, av, dels, unset)"
    and poll: "PollUpdateSignup env (VerifyPhoneCode_doUpdate env username unset av dels) w2 = (None, w')"
    by (auto simp: VerifyPhoneCode_def split: prod.splits sum.splits option.splits if_splits)
  from PollUpdateSignup_success [OF poll] obtain w0 where
    "VerifyPhoneCode_doUpdate env username unset av dels w0 = (None, w')" by blast
  from VerifyPhoneCode_doUpdate_None [OF this] VerifyPhoneCode_checks_None [OF chk]
  have post: "\<exists>signup'. find (\<lambda>s. Name s = EncodeUserIdentifier env username) (UserSignups w') = Some signup'
           \<and> \<not> VerificationRequired signup'
           \<and> Annotations signup' UserSignupVerificationCodeAnnotationKey = None
           \<and> Annotations signup' UserVerificationAttemptsAnnotationKey = None
           \<and> Annotations signup' UserSignupVerificationCounterAnnotationKey = None
           \<and> Annotations signup' UserSignupVerificationInitTimestampAnnotationKey = None
           \<and> Annotations signup' UserVerificationExpiryAnnotationKey = None"
    by auto
  have "find (\<lambda>s. Name s = EncodeUserIdentifier env username) (UserSignups w) = Some signup"
    using client_Get_Inr [OF get] by simp
  moreover have "fst (PhoneNumberAlreadyInUse env (snd (client_Get w (EncodeUserIdentifier env username))) username
                  (map_index (Labels signup) UserSignupUserPhoneHashLabelKey)) = None"
    using get inuse by simp
  ultimately show ?thesis
    using post gate VerifyPhoneCode_checks_None_conditions [OF chk] by blast
qed

text \<open>Witness for C1: the stored code is presented in time, on the first attempt.\<close>

theorem VerifyPhoneCode_success_witness:
  "fst (VerifyPhoneCode sample_env sample_cfg 1000 sample_world ''johnny'' ''999888'') = None
   \<and> (\<exists>signup'. find (\<lambda>s. Name s = EncodeUserIdentifier sample_env ''johnny'')
          (UserSignups (snd (VerifyPhoneCode sample_env sample_cfg 1000 sample_world ''johnny'' ''999888''))) = Some signup'
           \<and> \<not> VerificationRequired signup'
           \<and> Annotations signup' UserSignupVerificationCodeAnnotationKey = None
           \<and> Annotations signup' UserVerificationAttemptsAnnotationKey = None
           \<and> Annotations signup' UserSignupVerificationCounterAnnotationKey = None
           \<and> Annotations signup' UserSignupVerificationInitTimestampAnnotationKey = None
           \<and> Annotations signup' UserVerificationExpiryAnnotationKey = None)"
proof -
  have h: "fst (VerifyPhoneCode sample_env sample_cfg 1000 sample_world ''johnny'' ''999888'') = None"
    by code_simp
  from VerifyPhoneCode_success [OF pair_fst [OF h]] h show ?thesis by blast
qed

lemma Name_johnny: "Name johnny = ''johnny''"
  by (simp add: johnny_def)

subsection \<open>VerifyPhoneCode: the captcha gate\<close>

lemma checkRequiredManualApproval_Some:
  "(checkRequiredManualApproval env cfg signup = Some err) =
     (err = CrtError 403 ''verification failed'' ''verification is not available at this time''
      \<and> (\<exists>captchaScore fscore.
            Annotations signup UserSignupCaptchaScoreAnnotationKey = Some captchaScore
            \<and> ParseFloat32 env captchaScore = Inr fscore
            \<and> float32_less env fscore (CaptchaRequiredScore cfg)))"
  by (auto simp: checkRequiredManualApproval_def NewForbiddenError_def StatusForbidden_def
      split: option.splits sum.splits)

lemma VerifyPhoneCode_captcha_Some:
  "(VerifyPhoneCode_captcha env cfg signup = Some err) =
     (checkRequiredManualApproval env cfg signup = Some err
      \<and> \<not> (CaptchaAllowLowScoreReactivation cfg
           \<and> (\<exists>s n. Annotations signup UserSignupActivationCounterAnnotationKey = Some s
                  \<and> Atoi s = Inr n \<and> n \<noteq> 1)))"
  by (auto simp: VerifyPhoneCode_captcha_def split: option.splits sum.splits)

lemma VerifyPhoneCode_checks_not_captcha:
  "fst (VerifyPhoneCode_checks env cfg now signup code)
     \<noteq> Some (CrtError 403 ''verification failed'' ''verification is not available at this time'')"
  by (auto simp: VerifyPhoneCode_checks_def Let_def NewForbiddenError_def NewTooManyRequestsError_def
      NewInternalError_def StatusForbidden_def StatusTooManyRequests_def StatusInternalServerError_def
      split: sum.splits prod.splits if_splits)

text \<open>
  Claim C3, as the code has it. Once the UserSignup is read, \<open>VerifyPhoneCode\<close> returns the
  403 Forbidden error \<open>verification failed: verification is not available at this time\<close>
  exactly when the captcha score annotation is present, parses, and is below the required
  score, unless low-score reactivation is allowed and the activation counter annotation is
  present and parses to an integer other than 1 (the gate is then skipped).
\<close>

theorem VerifyPhoneCode_captcha_gate:
  assumes get: "client_Get w (EncodeUserIdentifier env username) = (Inr signup, w1)"
  shows "(fst (VerifyPhoneCode env cfg now w username code)
            = Some (CrtError 403 ''verification failed'' ''verification is not available at this time''))
         = ((\<exists>captchaScore fscore.
               Annotations signup UserSignupCaptchaScoreAnnotationKey = Some captchaScore
               \<and> ParseFloat32 env captchaScore = Inr fscore
               \<and> float32_less env fscore (CaptchaRequiredScore cfg))
            \<and> \<not> (CaptchaAllowLowScoreReactivation cfg
                 \<and> (\<exists>s n. Annotations signup UserSignupActivationCounterAnnotationKey = Some s
                        \<and> Atoi s = Inr n \<and> n \<noteq> 1)))"
proof (cases "VerifyPhoneCode_captcha env cfg signup")
  case None
  have "fst (VerifyPhoneCode env cfg now w username code)
          \<noteq> Some (CrtError 403 ''verification failed'' ''verification is not available at this time'')"
    using get None VerifyPhoneCode_checks_not_captcha [of env cfg now signup code]
    by (auto simp: VerifyPhoneCode_def NewBadRequest_def StatusBadRequest_def updateAccountError_def
        split: prod.splits option.splits)
  moreover have "\<not> ((\<exists>captchaScore fscore.
               Annotations signup UserSignupCaptchaScoreAnnotationKey = Some captchaScore
               \<and> ParseFloat32 env captchaScore = Inr fscore
               \<and> float32_less env fscore (CaptchaRequiredScore cfg))
            \<and> \<not> (CaptchaAllowLowScoreReactivation cfg
                 \<and> (\<exists>s n. Annotations signup UserSignupActivationCounterAnnotationKey = Some s
                        \<and> Atoi s = Inr n \<and> n \<noteq> 1)))"
  proof
    assume a: "(\<exists>captchaScore fscore.
               Annotations signup UserSignupCaptchaScoreAnnotationKey = Some captchaScore
               \<and> ParseFloat32 env captchaScore = Inr fscore
               \<and> float32_less env fscore (CaptchaRequiredScore cfg))
            \<and> \<not> (CaptchaAllowLowScoreReactivation cfg
                 \<and> (\<exists>s n. Annotations signup UserSignupActivationCounterAnnotationKey = Some s
                        \<and> Atoi s = Inr n \<and> n \<noteq> 1))"
    then have "checkRequiredManualApproval env cfg signup
        = Some (CrtError 403 ''verification failed'' ''verification is not available at this time'')"
      by (simp add: checkRequiredManualApproval_Some)
    then have "VerifyPhoneCode_captcha env cfg signup
        = Some (CrtError 403 ''verification failed'' ''verification is not available at this time'')"
      using a by (simp add: VerifyPhoneCode_captcha_Some)
    then show False using None by simp
  qed
  ultimately show ?thesis by blast
next
  case (Some err)
  then have r: "fst (VerifyPhoneCode env cfg now w username code) = Some err"
    using get by (simp add: VerifyPhoneCode_def)
  from Some show ?thesis
    unfolding r VerifyPhoneCode_captcha_Some checkRequiredManualApproval_Some by blast
qed

text \<open>
  Witness for C3: on a first activation (activation counter 1) a captcha score below the
  required score is refused.
\<close>

theorem VerifyPhoneCode_captcha_gate_witness:
  "fst (VerifyPhoneCode sample_env sample_cfg 1000
          (sample_world\<lparr>UserSignups := [johnny_first_activation]\<rparr>) ''johnny'' ''999888'')
     = Some (CrtError 403 ''verification failed'' ''verification is not available at this time'')
   \<and> (\<exists>captchaScore fscore.
         Annotations johnny_first_activation UserSignupCaptchaScoreAnnotationKey = Some captchaScore
         \<and> ParseFloat32 sample_env captchaScore = Inr fscore
         \<and> float32_less sample_env fscore (CaptchaRequiredScore sample_cfg))
   \<and> \<not> (CaptchaAllowLowScoreReactivation sample_cfg
        \<and> (\<exists>s n. Annotations johnny_first_activation UserSignupActivationCounterAnnotationKey = Some s
               \<and> Atoi s = Inr n \<and> n \<noteq> 1))"
proof -
  have n: "Name johnny_first_activation = ''johnny''"
    by (simp add: johnny_first_activation_def johnny_def)
  have get: "client_Get (sample_world\<lparr>UserSignups := [johnny_first_activation]\<rparr>)
               (EncodeUserIdentifier sample_env ''johnny'')
             = (Inr johnny_first_activation,
                snd (client_Get (sample_world\<lparr>UserSignups := [johnny_first_activation]\<rparr>)
                       (EncodeUserIdentifier sample_env ''johnny'')))"
    by (simp add: client_Get_def sample_world_def sample_env_def next_fault_def n)
  have r: "fst (VerifyPhoneCode sample_env sample_cfg 1000
          (sample_world\<lparr>UserSignups := [johnny_first_activation]\<rparr>) ''johnny'' ''999888'')
     = Some (CrtError 403 ''verification failed'' ''verification is not available at this time'')"
    by code_simp
  from VerifyPhoneCode_captcha_gate [OF get, of sample_cfg 1000 "''999888''"] r
  show ?thesis by blast
qed

text \<open>
  Counterexample to C3 as stated: with low-score reactivation allowed, an activation counter
  of 0 (an integer that is not greater than 1) skips the gate, and the call succeeds although
  the captcha score is below the required score.
\<close>

theorem VerifyPhoneCode_captcha_gate_counterexample:
  "CaptchaAllowLowScoreReactivation sample_cfg
   \<and> Atoi (map_index (Annotations johnny_low_score) UserSignupActivationCounterAnnotationKey) = Inr 0
   \<and> \<not> (1 :: goint) <s 0
   \<and> ParseFloat32 sample_env (map_index (Annotations johnny_low_score) UserSignupCaptchaScoreAnnotationKey) = Inr 1
   \<and> float32_less sample_env 1 (CaptchaRequiredScore sample_cfg)
   \<and> fst (VerifyPhoneCode sample_env sample_cfg 1000
            (sample_world\<lparr>UserSignups := [johnny_low_score]\<rparr>) ''johnny'' ''999888'') = None"
  by code_simp

subsection \<open>VerifyPhoneCode: the phone number in use\<close>

text \<open>
  Claim C5, as the code has it. When the reuse check on the stored phone hash reports the
  phone number as in use (its own 403 error), \<open>VerifyPhoneCode\<close> returns a 400 Bad Request
  error, \<open>phone number already in use\<close>.
\<close>

theorem VerifyPhoneCode_phone_in_use:
  assumes get: "client_Get w (EncodeUserIdentifier env username) = (Inr signup, w1)"
    and gate: "VerifyPhoneCode_captcha env cfg signup = None"
    and inuse: "fst (PhoneNumberAlreadyInUse env w1 username
                  (map_index (Labels signup) UserSignupUserPhoneHashLabelKey))
                = Some (CrtError 403 ''cannot re-register with phone number'' ''phone number already in use'')"
  shows "fst (VerifyPhoneCode env cfg now w username code)
           = Some (CrtError 400 ''phone number already in use''
                ''the phone number provided for this signup is already in use by an active account'')"
  using assms
  by (auto simp: VerifyPhoneCode_def NewBadRequest_def StatusBadRequest_def split: prod.splits option.splits)

text \<open>Witness for C5: the phone hash of the signup belongs to a banned user.\<close>

theorem VerifyPhoneCode_phone_in_use_witness:
  "fst (VerifyPhoneCode sample_env sample_cfg 1000 (sample_world\<lparr>BannedUsers := [banned_phone]\<rparr>)
          ''johnny'' ''999888'')
           = Some (CrtError 400 ''phone number already in use''
                ''the phone number provided for this signup is already in use by an active account'')"
proof -
  let ?w = "sample_world\<lparr>BannedUsers := [banned_phone]\<rparr>"
  have get: "client_Get ?w (EncodeUserIdentifier sample_env ''johnny'')
              = (Inr johnny, snd (client_Get ?w (EncodeUserIdentifier sample_env ''johnny'')))"
    by (simp add: client_Get_def sample_world_def sample_env_def next_fault_def Name_johnny)
  have gate: "VerifyPhoneCode_captcha sample_env sample_cfg johnny = None"
    by code_simp
  have inuse: "fst (PhoneNumberAlreadyInUse sample_env
                  (snd (client_Get ?w (EncodeUserIdentifier sample_env ''johnny''))) ''johnny''
                  (map_index (Labels johnny) UserSignupUserPhoneHashLabelKey))
                = Some (CrtError 403 ''cannot re-register with phone number'' ''phone number already in use'')"
    by code_simp
  from VerifyPhoneCode_phone_in_use [OF get gate inuse] show ?thesis .
qed

text \<open>
  Counterexample to C5 as stated: the phone is banned, the reuse check answers 403, and the
  status of the error that \<open>VerifyPhoneCode\<close> returns is 400.
\<close>

theorem VerifyPhoneCode_phone_in_use_counterexample:
  "fst (PhoneNumberAlreadyInUse sample_env (sample_world\<lparr>BannedUsers := [banned_phone]\<rparr>) ''johnny''
          (map_index (Labels johnny) UserSignupUserPhoneHashLabelKey))
     = Some (CrtError 403 ''cannot re-register with phone number'' ''phone number already in use'')
   \<and> map_option Code
        (fst (VerifyPhoneCode sample_env sample_cfg 1000 (sample_world\<lparr>BannedUsers := [banned_phone]\<rparr>)
               ''johnny'' ''999888'')) = Some 400
   \<and> (400 :: nat) \<noteq> 403"
  by code_simp

subsection \<open>The phone number reuse check: what counts as a hash\<close>

text \<open>
  Claim C4 at an input of 33 characters, a plus sign followed by 32 digits. It is not a hash
  of 32 hexadecimal characters, yet the matcher accepts it, and both list calls select on
  the input itself and not on its digest.
\<close>

theorem PhoneNumberAlreadyInUse_unanchored:
  "md5Matcher_Match ''+12345678901234567890123456789012''
   \<and> length ''+12345678901234567890123456789012'' = 33
   \<and> calls_of sample_world
        (snd (PhoneNumberAlreadyInUse sample_env sample_world ''johnny'' ''+12345678901234567890123456789012''))
      = [CallList ''BannedUserList''
           [(BannedUserPhoneNumberHashLabelKey, ''+12345678901234567890123456789012'')],
         CallList ''UserSignupList''
           [(UserSignupStateLabelKey, UserSignupStateLabelValueApproved),
            (BannedUserPhoneNumberHashLabelKey, ''+12345678901234567890123456789012'')]]
   \<and> EncodeString sample_env ''+12345678901234567890123456789012'' \<noteq> ''+12345678901234567890123456789012''"
  by code_simp

subsection \<open>Traces\<close>

lemma calls_of_append: "trace w' = trace w @ tr \<Longrightarrow> calls_of w w' = tr"
  by (simp add: calls_of_def)

lemma trace_extends:
  assumes "take (length (trace w)) (trace w') = trace w"
  shows "trace w' = trace w @ calls_of w w'"
proof -
  have "trace w' = take (length (trace w)) (trace w') @ drop (length (trace w)) (trace w')"
    by (rule append_take_drop_id [symmetric])
  then show ?thesis using assms by (simp only: calls_of_def)
qed

lemma reads_only_iff:
  "reads_only w w' =
     (UserSignups w' = UserSignups w \<and> send_faults w' = send_faults w
      \<and> (\<exists>tr. trace w' = trace w @ tr \<and> \<not> list_ex isSend tr \<and> \<not> list_ex isUpdate tr))"
proof
  assume r: "reads_only w w'"
  have t: "trace w' = trace w @ calls_of w w'"
    using r unfolding reads_only_def by (intro trace_extends) (elim conjE)
  have "\<not> list_ex isSend (calls_of w w')"
    using r unfolding reads_only_def by (elim conjE)
  moreover have "\<not> list_ex isUpdate (calls_of w w')"
    using r unfolding reads_only_def by (elim conjE)
  moreover have "UserSignups w' = UserSignups w"
    using r unfolding reads_only_def by (elim conjE)
  moreover have "send_faults w' = send_faults w"
    using r unfolding reads_only_def by (elim conjE)
  moreover note t
  ultimately show "UserSignups w' = UserSignups w \<and> send_faults w' = send_faults w
      \<and> (\<exists>tr. trace w' = trace w @ tr \<and> \<not> list_ex isSend tr \<and> \<not> list_ex isUpdate tr)"
    by blast
next
  assume "UserSignups w' = UserSignups w \<and> send_faults w' = send_faults w
      \<and> (\<exists>tr. trace w' = trace w @ tr \<and> \<not> list_ex isSend tr \<and> \<not> list_ex isUpdate tr)"
  then obtain tr where a: "UserSignups w' = UserSignups w" "send_faults w' = send_faults w"
    "trace w' = trace w @ tr" "\<not> list_ex isSend tr" "\<not> list_ex isUpdate tr" by blast
  have c: "calls_of w w' = tr" using a(3) by (rule calls_of_append)
  have "take (length (trace w)) (trace w') = trace w" "length (trace w) \<le> length (trace w')"
    using a(3) by simp_all
  then show "reads_only w w'"
    unfolding reads_only_def c using a by blast
qed

lemma sends_nothing_iff:
  "sends_nothing w w' = (\<exists>tr. trace w' = trace w @ tr \<and> \<not> list_ex isSend tr)"
proof
  assume r: "sends_nothing w w'"
  have t: "trace w' = trace w @ calls_of w w'"
    using r unfolding sends_nothing_def by (intro trace_extends) (elim conjE)
  have "\<not> list_ex isSend (calls_of w w')"
    using r unfolding sends_nothing_def by (elim conjE)
  with t show "\<exists>tr. trace w' = trace w @ tr \<and> \<not> list_ex isSend tr"
    by blast
next
  assume "\<exists>tr. trace w' = trace w @ tr \<and> \<not> list_ex isSend tr"
  then obtain tr where a: "trace w' = trace w @ tr" "\<not> list_ex isSend tr" by blast
  have c: "calls_of w w' = tr" using a(1) by (rule calls_of_append)
  have "take (length (trace w)) (trace w') = trace w" "length (trace w) \<le> length (trace w')"
    using a(1) by simp_all
  then show "sends_nothing w w'"
    unfolding sends_nothing_def c using a by blast
qed

lemma reads_only_refl: "reads_only w w"
  by (simp add: reads_only_iff)

lemma reads_only_trans:
  assumes "reads_only w w1" and "reads_only w1 w2"
  shows "reads_only w w2"
proof -
  from assms(1) obtain tr1 where 1: "UserSignups w1 = UserSignups w" "send_faults w1 = send_faults w"
    "trace w1 = trace w @ tr1" "\<not> list_ex isSend tr1" "\<not> list_ex isUpdate tr1"
    unfolding reads_only_iff by blast
  from assms(2) obtain tr2 where 2: "UserSignups w2 = UserSignups w1" "send_faults w2 = send_faults w1"
    "trace w2 = trace w1 @ tr2" "\<not> list_ex isSend tr2" "\<not> list_ex isUpdate tr2"
    unfolding reads_only_iff by blast
  have "trace w2 = trace w @ (tr1 @ tr2)" using 1(3) 2(3) by simp
  moreover have "\<not> list_ex isSend (tr1 @ tr2)" "\<not> list_ex isUpdate (tr1 @ tr2)"
    using 1(4,5) 2(4,5) by simp_all
  ultimately show ?thesis
    unfolding reads_only_iff using 1(1,2) 2(1,2) by (intro conjI exI [of _ "tr1 @ tr2"]) simp_all
qed

lemma sends_nothing_refl: "sends_nothing w w"
  by (simp add: sends_nothing_iff)

lemma sends_nothing_trans:
  assumes "sends_nothing w w1" and "sends_nothing w1 w2"
  shows "sends_nothing w w2"
proof -
  from assms(1) obtain tr1 where 1: "trace w1 = trace w @ tr1" "\<not> list_ex isSend tr1"
    unfolding sends_nothing_iff by blast
  from assms(2) obtain tr2 where 2: "trace w2 = trace w1 @ tr2" "\<not> list_ex isSend tr2"
    unfolding sends_nothing_iff by blast
  have "trace w2 = trace w @ (tr1 @ tr2)" using 1(1) 2(1) by simp
  moreover have "\<not> list_ex isSend (tr1 @ tr2)"
    using 1(2) 2(2) by simp
  ultimately show ?thesis
    unfolding sends_nothing_iff by blast
qed

lemma reads_only_sends_nothing: "reads_only w w' \<Longrightarrow> sends_nothing w w'"
  unfolding reads_only_iff sends_nothing_iff by blast

lemma client_Get_world:
  "client_Get w name = (r, w') \<Longrightarrow>
     w' = w\<lparr>get_faults := snd (next_fault (get_faults w)), trace := trace w @ [CallGet name]\<rparr>"
  by (auto simp: client_Get_def Let_def split: prod.splits option.splits)

lemma client_Get_reads: "client_Get w name = (r, w') \<Longrightarrow> reads_only w w'"
  by (drule client_Get_world) (simp add: reads_only_def calls_of_def)

lemma client_Get_SocialEvent_world:
  "client_Get_SocialEvent w name = (r, w') \<Longrightarrow>
     w' = w\<lparr>get_faults := snd (next_fault (get_faults w)), trace := trace w @ [CallGet name]\<rparr>"
  by (auto simp: client_Get_SocialEvent_def Let_def split: prod.splits option.splits)

lemma client_Get_SocialEvent_reads: "client_Get_SocialEvent w name = (r, w') \<Longrightarrow> reads_only w w'"
  by (drule client_Get_SocialEvent_world) (simp add: reads_only_def calls_of_def)

lemma client_List_BannedUser_world:
  "client_List_BannedUser w sel = (r, w') \<Longrightarrow>
     w' = w\<lparr>list_faults := snd (next_fault (list_faults w)),
             trace := trace w @ [CallList ''BannedUserList'' sel]\<rparr>"
  by (auto simp: client_List_BannedUser_def Let_def split: prod.splits option.splits)

lemma client_List_BannedUser_reads: "client_List_BannedUser w sel = (r, w') \<Longrightarrow> reads_only w w'"
  by (drule client_List_BannedUser_world) (simp add: reads_only_def calls_of_def)

lemma client_List_UserSignup_world:
  "client_List_UserSignup w sel = (r, w') \<Longrightarrow>
     w' = w\<lparr>list_faults := snd (next_fault (list_faults w)),
             trace := trace w @ [CallList ''UserSignupList'' sel]\<rparr>"
  by (auto simp: client_List_UserSignup_def Let_def split: prod.splits option.splits)

lemma client_List_UserSignup_reads: "client_List_UserSignup w sel = (r, w') \<Longrightarrow> reads_only w w'"
  by (drule client_List_UserSignup_world) (simp add: reads_only_def calls_of_def)

lemma rand_Read_reads: "rand_Read w n = (r, w') \<Longrightarrow> reads_only w w'"
  by (auto simp: rand_Read_def reads_only_def calls_of_def split: if_splits)

lemma generateVerificationCode_reads: "generateVerificationCode w = (r, w') \<Longrightarrow> reads_only w w'"
  by (auto simp: generateVerificationCode_def rand_Read_reads split: prod.splits sum.splits)

lemma client_Update_trace:
  "client_Update w signup = (r, w') \<Longrightarrow> trace w' = trace w @ [CallUpdate (Name signup)]"
  by (auto simp: client_Update_def Let_def split: prod.splits option.splits)

lemma client_Update_sends_nothing: "client_Update w signup = (r, w') \<Longrightarrow> sends_nothing w w'"
  by (drule client_Update_trace) (simp add: sends_nothing_def calls_of_def)

lemma PhoneNumberAlreadyInUse_reads:
  assumes "PhoneNumberAlreadyInUse env w username phoneNumberOrHash = (r, w')"
  shows "reads_only w w'"
proof -
  let ?lv = "if md5Matcher_Match phoneNumberOrHash then phoneNumberOrHash
             else EncodeString env phoneNumberOrHash"
  obtain r1 w1 where l1: "client_List_BannedUser w [(BannedUserPhoneNumberHashLabelKey, ?lv)] = (r1, w1)"
    by (cases "client_List_BannedUser w [(BannedUserPhoneNumberHashLabelKey, ?lv)]") auto
  obtain r2 w2 where l2: "client_List_UserSignup w1
      [(UserSignupStateLabelKey, UserSignupStateLabelValueApproved),
       (BannedUserPhoneNumberHashLabelKey, ?lv)] = (r2, w2)"
    by (cases "client_List_UserSignup w1
      [(UserSignupStateLabelKey, UserSignupStateLabelValueApproved),
       (BannedUserPhoneNumberHashLabelKey, ?lv)]") auto
  have a: "reads_only w w1" using l1 by (rule client_List_BannedUser_reads)
  have b: "reads_only w w2" using a client_List_UserSignup_reads [OF l2] by (rule reads_only_trans)
  have "w' = w1 \<or> w' = w2"
    using assms l1 l2
    by (auto simp: PhoneNumberAlreadyInUse_def Let_def split: sum.splits if_splits)
  then show ?thesis using a b by auto
qed

lemma PollUpdateSignup_loop_sends_nothing:
  assumes step: "\<And>s r s'. updater s = (r, s') \<Longrightarrow> sends_nothing s s'"
  shows "PollUpdateSignup_loop n retriable updater s = (r, s') \<Longrightarrow> sends_nothing s s'"
proof (induction n arbitrary: s)
  case 0
  then show ?case using step by simp
next
  case (Suc n)
  obtain r1 s1 where u: "updater s = (r1, s1)" by (cases "updater s") auto
  have a: "sends_nothing s s1" using u by (rule step)
  show ?case
  proof (cases r1)
    case None
    then show ?thesis using Suc.prems u a by simp
  next
    case (Some err)
    show ?thesis
    proof (cases "retriable err")
      case True
      then have "PollUpdateSignup_loop n retriable updater s1 = (r, s')"
        using Suc.prems u Some by simp
      from a Suc.IH [OF this] show ?thesis by (rule sends_nothing_trans)
    next
      case False
      then show ?thesis using Suc.prems u Some a by simp
    qed
  qed
qed

lemma InitVerification_doUpdate_sends_nothing:
  assumes "InitVerification_doUpdate env username lv av w = (r, w')"
  shows "sends_nothing w w'"
proof -
  obtain r1 w1 where g: "client_Get w (EncodeUserIdentifier env username) = (r1, w1)"
    by (cases "client_Get w (EncodeUserIdentifier env username)") auto
  have a: "sends_nothing w w1"
    using client_Get_reads [OF g] by (rule reads_only_sends_nothing)
  show ?thesis
  proof (cases r1)
    case (Inl err)
    then show ?thesis using assms g a by (simp add: InitVerification_doUpdate_def)
  next
    case (Inr signup)
    then have "client_Update w1
            (signup\<lparr>Labels := Labels signup ++ lv, Annotations := Annotations signup ++ av\<rparr>) = (r, w')"
      using assms g by (simp add: InitVerification_doUpdate_def)
    from a client_Update_sends_nothing [OF this] show ?thesis by (rule sends_nothing_trans)
  qed
qed

lemma InitVerification_update_sends_nothing:
  assumes "InitVerification_update env username lv av initError w = (r, w')"
  shows "sends_nothing w w'"
proof -
  obtain r1 w1 where p: "PollUpdateSignup env (InitVerification_doUpdate env username lv av) w = (r1, w1)"
    by (cases "PollUpdateSignup env (InitVerification_doUpdate env username lv av) w") auto
  have "sends_nothing w w1"
    using p unfolding PollUpdateSignup_def
    by (rule PollUpdateSignup_loop_sends_nothing [rotated]) (rule InitVerification_doUpdate_sends_nothing)
  moreover have "w' = w1"
    using assms p by (auto simp: InitVerification_update_def split: option.splits)
  ultimately show ?thesis by simp
qed

subsection \<open>InitVerification\<close>

lemma SendNotification_world:
  "SendNotification w content phoneNumber countryCode = (r, w') \<Longrightarrow>
     r = fst (next_fault (send_faults w))
     \<and> UserSignups w' = UserSignups w
     \<and> trace w' = trace w @ [CallSend content phoneNumber countryCode]"
  by (auto simp: SendNotification_def Let_def split: prod.splits)

lemma PollUpdateSignup_loop_success_from:
  assumes step: "\<And>s r s'. updater s = (r, s') \<Longrightarrow> sends_nothing s s'"
  shows "PollUpdateSignup_loop n retriable updater s = (None, s') \<Longrightarrow>
           \<exists>s0. updater s0 = (None, s') \<and> sends_nothing s s0"
proof (induction n arbitrary: s)
  case 0
  then show ?case using sends_nothing_refl by auto
next
  case (Suc n)
  obtain r1 s1 where u: "updater s = (r1, s1)" by (cases "updater s") auto
  show ?case
  proof (cases r1)
    case None
    then have "updater s = (None, s')" using Suc.prems u by simp
    then show ?thesis using sends_nothing_refl by blast
  next
    case (Some err)
    then have "PollUpdateSignup_loop n retriable updater s1 = (None, s')"
      using Suc.prems u by (simp split: if_splits)
    from Suc.IH [OF this] obtain s0 where s0: "updater s0 = (None, s')" "sends_nothing s1 s0" by blast
    have "sends_nothing s s0" using step [OF u] s0(2) by (rule sends_nothing_trans)
    then show ?thesis using s0(1) by blast
  qed
qed

lemma calls_of_trans:
  assumes "sends_nothing w w0" and "sends_nothing w0 w'"
  shows "calls_of w w' = calls_of w w0 @ calls_of w0 w'"
proof -
  have 1: "trace w0 = trace w @ calls_of w w0"
    using assms(1) unfolding sends_nothing_def by (intro trace_extends) (elim conjE)
  have 2: "trace w' = trace w0 @ calls_of w0 w'"
    using assms(2) unfolding sends_nothing_def by (intro trace_extends) (elim conjE)
  have "trace w' = trace w @ (calls_of w w0 @ calls_of w0 w')"
    using 1 2 by (metis append_assoc)
  then show ?thesis by (rule calls_of_append)
qed

lemma InitVerification_doUpdate_None:
  assumes "InitVerification_doUpdate env username lv av w0 = (None, w')"
  shows "\<exists>signup0.
           find (\<lambda>s. Name s = EncodeUserIdentifier env username) (UserSignups w')
             = Some (signup0\<lparr>Labels := Labels signup0 ++ lv, Annotations := Annotations signup0 ++ av\<rparr>)
           \<and> list_ex isUpdate (calls_of w0 w')"
proof -
  obtain signup w1 where get: "client_Get w0 (EncodeUserIdentifier env username) = (Inr signup, w1)"
    using assms by (auto simp: InitVerification_doUpdate_def split: prod.splits sum.splits)
  let ?s = "signup\<lparr>Labels := Labels signup ++ lv, Annotations := Annotations signup ++ av\<rparr>"
  have upd: "client_Update w1 ?s = (None, w')"
    using assms get by (simp add: InitVerification_doUpdate_def)
  have name: "Name ?s = EncodeUserIdentifier env username"
    using client_Get_Inr [OF get] find_Name [of "EncodeUserIdentifier env username" "UserSignups w0" signup]
    by simp
  have f: "find (\<lambda>s. Name s = EncodeUserIdentifier env username) (UserSignups w') = Some ?s"
    using client_Update_None [OF upd] name by simp
  have "trace w1 = trace w0 @ [CallGet (EncodeUserIdentifier env username)]"
    using client_Get_world [OF get] by simp
  then have "trace w' = trace w0 @ [CallGet (EncodeUserIdentifier env username), CallUpdate (Name ?s)]"
    using client_Update_trace [OF upd] by simp
  then have "calls_of w0 w' = [CallGet (EncodeUserIdentifier env username), CallUpdate (Name ?s)]"
    by (rule calls_of_append)
  then have "list_ex isUpdate (calls_of w0 w')" by simp
  with f have "find (\<lambda>s. Name s = EncodeUserIdentifier env username) (UserSignups w') = Some ?s
           \<and> list_ex isUpdate (calls_of w0 w')" by (rule conjI)
  then show ?thesis by (rule exI [of _ signup])
qed

text \<open>The three shapes of a run of \<open>InitVerification\<close>: no SMS, a failed send, a send followed by the update loop.\<close>

lemma InitVerification_shape:
  "sends_nothing w (snd (InitVerification env cfg now w username phone cc))
   \<or> (\<exists>w3 err content.
         reads_only w w3
         \<and> SendNotification w3 content phone cc = (Some err, snd (InitVerification env cfg now w username phone cc))
         \<and> fst (InitVerification env cfg now w username phone cc)
             = Some (NewInternalError err ''error while sending verification code''))
   \<or> (\<exists>w3 w4 content.
         reads_only w w3
         \<and> SendNotification w3 content phone cc = (None, w4)
         \<and> sends_nothing w4 (snd (InitVerification env cfg now w username phone cc)))"
  (is "?N \<or> ?F \<or> ?S")
proof -
  let ?R = "InitVerification env cfg now w username phone cc"
  obtain r1 w1 where get: "client_Get w (EncodeUserIdentifier env username) = (r1, w1)"
    by (cases "client_Get w (EncodeUserIdentifier env username)") auto
  have rw1: "reads_only w w1" using get by (rule client_Get_reads)
  show ?thesis
  proof (cases r1)
    case (Inl err)
    then have "snd ?R = w1" using get by (simp add: InitVerification_def)
    then show ?thesis using rw1 reads_only_sends_nothing by simp
  next
    case (Inr signup)
    show ?thesis
    proof (cases "VerificationRequired signup")
      case False
      then have "snd ?R = w1" using get Inr by (simp add: InitVerification_def)
      then show ?thesis using rw1 reads_only_sends_nothing by simp
    next
      case True
      obtain r2 w2 where inuse: "PhoneNumberAlreadyInUse env w1 username phone = (r2, w2)"
        by (cases "PhoneNumberAlreadyInUse env w1 username phone") auto
      have rw2: "reads_only w w2"
        using rw1 PhoneNumberAlreadyInUse_reads [OF inuse] by (rule reads_only_trans)
      show ?thesis
      proof (cases r2)
        case (Some err)
        then have "snd ?R = w2" using get Inr True inuse by (simp add: InitVerification_def)
        then show ?thesis using rw2 reads_only_sends_nothing by simp
      next
        case None
        obtain counter av where win:
          "InitVerification_window env now signup
             (InitVerification_counter (DailyLimit cfg)
                (map_index (Annotations signup) UserSignupVerificationCounterAnnotationKey)) = (counter, av)"
          by (cases "InitVerification_window env now signup
             (InitVerification_counter (DailyLimit cfg)
                (map_index (Annotations signup) UserSignupVerificationCounterAnnotationKey))") auto
        let ?lv = "[UserSignupUserPhoneHashLabelKey \<mapsto> EncodeString env phone]"
        show ?thesis
        proof (cases "DailyLimit cfg <=s counter")
          case True
          have "?R = InitVerification_update env username ?lv av
                  (Some (NewForbiddenError ''daily limit exceeded'' ''cannot generate new verification code'')) w2"
            using get Inr \<open>VerificationRequired signup\<close> inuse None win True
            by (simp add: InitVerification_def)
          then have "sends_nothing w2 (snd ?R)"
            using InitVerification_update_sends_nothing [of env username ?lv av _ w2 "fst ?R" "snd ?R"]
            by simp
          then have "sends_nothing w (snd ?R)"
            using reads_only_sends_nothing [OF rw2] sends_nothing_trans by blast
          then show ?thesis by simp
        next
          case False
          obtain r3 w3 where gen: "generateVerificationCode w2 = (r3, w3)"
            by (cases "generateVerificationCode w2") auto
          have rw3: "reads_only w w3"
            using rw2 generateVerificationCode_reads [OF gen] by (rule reads_only_trans)
          show ?thesis
          proof (cases r3)
            case (Inl err)
            then have "snd ?R = w3"
              using get Inr \<open>VerificationRequired signup\<close> inuse None win False gen
              by (simp add: InitVerification_def)
            then show ?thesis using rw3 reads_only_sends_nothing by simp
          next
            case (Inr verificationCode)
            let ?av' = "av(UserVerificationAttemptsAnnotationKey \<mapsto> ''0'',
                           UserSignupVerificationCounterAnnotationKey \<mapsto> Itoa (counter + 1),
                           UserSignupVerificationCodeAnnotationKey \<mapsto> verificationCode,
                           UserVerificationExpiryAnnotationKey \<mapsto>
                             time_Format env (Time_Add now (CodeExpiresInMin cfg * Minute)))"
            let ?content = "MessageTemplate cfg verificationCode"
            obtain r4 w4 where send: "SendNotification w3 ?content phone cc = (r4, w4)"
              by (cases "SendNotification w3 ?content phone cc") auto
            have R: "?R = (case r4 of
                        Some err \<Rightarrow> (Some (NewInternalError err ''error while sending verification code''), w4)
                      | None \<Rightarrow> InitVerification_update env username ?lv ?av' None w4)"
              using get \<open>r1 = Inr signup\<close> \<open>VerificationRequired signup\<close> inuse None win False gen Inr send
              by (simp add: InitVerification_def Let_def)
            show ?thesis
            proof (cases r4)
              case (Some err)
              then have "?F" using R rw3 send by auto
              then show ?thesis by simp
            next
              case None
              then have "?R = InitVerification_update env username ?lv ?av' None w4" using R by simp
              then have "sends_nothing w4 (snd ?R)"
                using InitVerification_update_sends_nothing [of env username ?lv ?av' None w4 "fst ?R" "snd ?R"]
                by simp
              then have "?S" using rw3 send None by blast
              then show ?thesis by simp
            qed
          qed
        qed
      qed
    qed
  qed
qed

lemma list_ex_dropWhile: "\<not> list_ex P xs \<Longrightarrow> \<not> list_ex P (dropWhile Q xs)"
  by (auto simp: list_ex_iff dest: set_dropWhileD)

lemma dropWhile_no_update:
  "\<not> list_ex isUpdate pre \<Longrightarrow>
     dropWhile (\<lambda>c. \<not> isUpdate c) (pre @ post) = dropWhile (\<lambda>c. \<not> isUpdate c) post"
  by (rule dropWhile_append2) (simp add: list_ex_iff)

lemma sends_nothing_calls: "sends_nothing w w' \<Longrightarrow> \<not> list_ex isSend (calls_of w w')"
  unfolding sends_nothing_def by (elim conjE)

text \<open>
  Claim C7. In every run of \<open>InitVerification\<close>, no SMS is sent once an update of the
  UserSignup has been attempted: the send comes before the update loop. And when an SMS is
  sent and the send fails with an error, the call returns the 500 Internal error
  \<open>error while sending verification code\<close> built from that error, the stored UserSignups are
  as they were, and no update was attempted.
\<close>

theorem InitVerification_send_before_update:
  "\<not> list_ex isSend (dropWhile (\<lambda>c. \<not> isUpdate c)
        (calls_of w (snd (InitVerification env cfg now w username phone cc))))
   \<and> (send_faults w = Some err # rest
        \<and> list_ex isSend (calls_of w (snd (InitVerification env cfg now w username phone cc)))
      \<longrightarrow> fst (InitVerification env cfg now w username phone cc)
            = Some (CrtError 500 (Error_text err) ''error while sending verification code'')
          \<and> UserSignups (snd (InitVerification env cfg now w username phone cc)) = UserSignups w
          \<and> \<not> list_ex isUpdate (calls_of w (snd (InitVerification env cfg now w username phone cc))))"
proof -
  let ?R = "InitVerification env cfg now w username phone cc"
  let ?tr = "calls_of w (snd ?R)"
  consider
    (N) "sends_nothing w (snd ?R)"
  | (F) w3 err' content where "reads_only w w3"
      "SendNotification w3 content phone cc = (Some err', snd ?R)"
      "fst ?R = Some (NewInternalError err' ''error while sending verification code'')"
  | (S) w3 w4 content where "reads_only w w3"
      "SendNotification w3 content phone cc = (None, w4)" "sends_nothing w4 (snd ?R)"
    using InitVerification_shape [of w env cfg now username phone cc] by blast
  then show ?thesis
  proof cases
    case N
    then have "\<not> list_ex isSend ?tr" by (rule sends_nothing_calls)
    then show ?thesis using list_ex_dropWhile by blast
  next
    case F
    from F(1) obtain tr3 where r: "UserSignups w3 = UserSignups w" "send_faults w3 = send_faults w"
      "trace w3 = trace w @ tr3" "\<not> list_ex isSend tr3" "\<not> list_ex isUpdate tr3"
      unfolding reads_only_iff by blast
    from SendNotification_world [OF F(2)] have s: "Some err' = fst (next_fault (send_faults w3))"
      "UserSignups (snd ?R) = UserSignups w3"
      "trace (snd ?R) = trace w3 @ [CallSend content phone cc]" by simp_all
    have "trace (snd ?R) = trace w @ (tr3 @ [CallSend content phone cc])"
      using r(3) s(3) by simp
    then have tr: "?tr = tr3 @ [CallSend content phone cc]" by (rule calls_of_append)
    have nu: "\<not> list_ex isUpdate ?tr" using r(5) tr by simp
    have a: "\<not> list_ex isSend (dropWhile (\<lambda>c. \<not> isUpdate c) ?tr)"
    proof -
      have e: "dropWhile (\<lambda>c. \<not> isUpdate c) ?tr = []"
        using nu by (simp add: list_ex_iff)
      show ?thesis unfolding e by simp
    qed
    have b: "send_faults w = Some err # rest \<longrightarrow>
               fst ?R = Some (CrtError 500 (Error_text err) ''error while sending verification code'')"
    proof
      assume "send_faults w = Some err # rest"
      then have "err' = err" using s(1) r(2) by (simp add: next_fault_def)
      then show "fst ?R = Some (CrtError 500 (Error_text err) ''error while sending verification code'')"
        using F(3) by (simp add: NewInternalError_def StatusInternalServerError_def)
    qed
    show ?thesis using a b nu s(2) r(1) by simp
  next
    case S
    from S(1) obtain tr3 where r: "UserSignups w3 = UserSignups w" "send_faults w3 = send_faults w"
      "trace w3 = trace w @ tr3" "\<not> list_ex isSend tr3" "\<not> list_ex isUpdate tr3"
      unfolding reads_only_iff by blast
    from SendNotification_world [OF S(2)] have s: "None = fst (next_fault (send_faults w3))"
      "trace w4 = trace w3 @ [CallSend content phone cc]" by simp_all
    from S(3) obtain tr5 where u: "trace (snd ?R) = trace w4 @ tr5" "\<not> list_ex isSend tr5"
      unfolding sends_nothing_iff by blast
    have "trace (snd ?R) = trace w @ ((tr3 @ [CallSend content phone cc]) @ tr5)"
      using r(3) s(2) u(1) by simp
    then have tr: "?tr = (tr3 @ [CallSend content phone cc]) @ tr5" by (rule calls_of_append)
    have "\<not> list_ex isUpdate (tr3 @ [CallSend content phone cc])" using r(5) by simp
    then have "dropWhile (\<lambda>c. \<not> isUpdate c) ?tr = dropWhile (\<lambda>c. \<not> isUpdate c) tr5"
      unfolding tr by (rule dropWhile_no_update)
    then have a: "\<not> list_ex isSend (dropWhile (\<lambda>c. \<not> isUpdate c) ?tr)"
      using u(2) list_ex_dropWhile by simp
    have b: "send_faults w \<noteq> Some err # rest"
      using s(1) r(2) by (auto simp: next_fault_def)
    show ?thesis using a b by simp
  qed
qed

text \<open>Witness for C7: the SMS sender fails on the first send.\<close>

theorem InitVerification_send_before_update_witness:
  "fst (InitVerification sample_env sample_cfg 1000
          (sample_world\<lparr>send_faults := [Some (ErrorString ''no route'')]\<rparr>) ''johnny'' ''+12268213044'' ''1'')
     = Some (CrtError 500 (Error_text (ErrorString ''no route'')) ''error while sending verification code'')
   \<and> UserSignups (snd (InitVerification sample_env sample_cfg 1000
          (sample_world\<lparr>send_faults := [Some (ErrorString ''no route'')]\<rparr>) ''johnny'' ''+12268213044'' ''1''))
     = UserSignups (sample_world\<lparr>send_faults := [Some (ErrorString ''no route'')]\<rparr>)"
proof -
  let ?w = "sample_world\<lparr>send_faults := [Some (ErrorString ''no route'')]\<rparr>"
  have f: "send_faults ?w = Some (ErrorString ''no route'') # []" by simp
  have s: "list_ex isSend (calls_of ?w
             (snd (InitVerification sample_env sample_cfg 1000 ?w ''johnny'' ''+12268213044'' ''1'')))"
    by code_simp
  from InitVerification_send_before_update
         [of ?w sample_env sample_cfg 1000 "''johnny''" "''+12268213044''" "''1''" "ErrorString ''no route''" "[]"]
       f s
  show ?thesis by blast
qed

lemma timestamp_key_neq_counter_key:
  "UserSignupVerificationInitTimestampAnnotationKey \<noteq> UserSignupVerificationCounterAnnotationKey"
  by (simp add: UserSignupVerificationInitTimestampAnnotationKey_def
      UserSignupVerificationCounterAnnotationKey_def)

lemma InitVerification_window_reset:
  assumes "case time_Parse env (map_index (Annotations signup) UserSignupVerificationInitTimestampAnnotationKey) of
             Inl parseErr \<Rightarrow> True
           | Inr ts \<Rightarrow> Time_After now (Time_Add ts (24 * Hour))"
    and "InitVerification_window env now signup ca = (counter, annotationValues)"
  shows "counter = 0
         \<and> annotationValues UserSignupVerificationInitTimestampAnnotationKey = Some (time_Format env now)
         \<and> annotationValues UserSignupVerificationCounterAnnotationKey = Some ''0''"
  using assms timestamp_key_neq_counter_key
  by (cases ca) (auto simp: InitVerification_window_def split: sum.splits if_splits)

text \<open>
  Claim C6, as the code has it. Once the UserSignup is read, verification is required and
  the phone number is not in use: when the init timestamp annotation does not parse or is
  more than 24 hours old, the counter is 0 and the annotations to write hold the present as
  timestamp and 0 as counter; and when the counter, after that, is at or above the daily
  limit, no SMS is sent, and the call returns the 403 Forbidden error
  \<open>daily limit exceeded\<close> if the update loop succeeds and the error of the update loop
  otherwise.
\<close>

theorem InitVerification_daily_limit:
  assumes get: "client_Get w (EncodeUserIdentifier env username) = (Inr signup, w1)"
    and vr: "VerificationRequired signup"
    and inuse: "PhoneNumberAlreadyInUse env w1 username phone = (None, w2)"
    and win: "InitVerification_window env now signup
                (InitVerification_counter (DailyLimit cfg)
                   (map_index (Annotations signup) UserSignupVerificationCounterAnnotationKey))
              = (counter, annotationValues)"
  shows "((case time_Parse env (map_index (Annotations signup) UserSignupVerificationInitTimestampAnnotationKey) of
             Inl parseErr \<Rightarrow> True
           | Inr ts \<Rightarrow> Time_After now (Time_Add ts (24 * Hour)))
          \<longrightarrow> counter = 0
              \<and> annotationValues UserSignupVerificationInitTimestampAnnotationKey = Some (time_Format env now)
              \<and> annotationValues UserSignupVerificationCounterAnnotationKey = Some ''0'')
       \<and> (DailyLimit cfg <=s counter
          \<longrightarrow> fst (InitVerification env cfg now w username phone cc)
                = (if fst (PollUpdateSignup env
                             (InitVerification_doUpdate env username
                                [UserSignupUserPhoneHashLabelKey \<mapsto> EncodeString env phone] annotationValues) w2)
                      = None
                   then Some (CrtError 403 ''daily limit exceeded'' ''cannot generate new verification code'')
                   else Some updateAccountError)
              \<and> \<not> list_ex isSend (calls_of w (snd (InitVerification env cfg now w username phone cc))))"
proof (intro conjI impI)
  assume "case time_Parse env (map_index (Annotations signup) UserSignupVerificationInitTimestampAnnotationKey) of
             Inl parseErr \<Rightarrow> True
           | Inr ts \<Rightarrow> Time_After now (Time_Add ts (24 * Hour))"
  from InitVerification_window_reset [OF this win]
  show "counter = 0"
    "annotationValues UserSignupVerificationInitTimestampAnnotationKey = Some (time_Format env now)"
    "annotationValues UserSignupVerificationCounterAnnotationKey = Some ''0''"
    by simp_all
next
  let ?R = "InitVerification env cfg now w username phone cc"
  let ?lv = "[UserSignupUserPhoneHashLabelKey \<mapsto> EncodeString env phone]"
  assume lim: "DailyLimit cfg <=s counter"
  have R: "?R = InitVerification_update env username ?lv annotationValues
                  (Some (NewForbiddenError ''daily limit exceeded'' ''cannot generate new verification code'')) w2"
    using get vr inuse win lim by (simp add: InitVerification_def)
  show "fst ?R = (if fst (PollUpdateSignup env (InitVerification_doUpdate env username ?lv annotationValues) w2) = None
                   then Some (CrtError 403 ''daily limit exceeded'' ''cannot generate new verification code'')
                   else Some updateAccountError)"
    unfolding R
    by (auto simp: InitVerification_update_def NewForbiddenError_def StatusForbidden_def
        split: prod.splits option.splits)
  have "reads_only w w2"
    using client_Get_reads [OF get] PhoneNumberAlreadyInUse_reads [OF inuse] by (rule reads_only_trans)
  then have "sends_nothing w w2" by (rule reads_only_sends_nothing)
  moreover have "sends_nothing w2 (snd ?R)"
    using R InitVerification_update_sends_nothing [of env username ?lv annotationValues _ w2 "fst ?R" "snd ?R"]
    by simp
  ultimately have "sends_nothing w (snd ?R)" by (rule sends_nothing_trans)
  then show "\<not> list_ex isSend (calls_of w (snd ?R))" by (rule sends_nothing_calls)
qed

text \<open>
  Witness for C6: the sample signup has no init timestamp, so the window is reset; with a
  daily limit of 0 the counter is at the limit, and the update succeeds.
\<close>

theorem InitVerification_daily_limit_witness:
  "fst (InitVerification_window sample_env 1000 johnny
          (InitVerification_counter (DailyLimit (sample_cfg\<lparr>DailyLimit := 0\<rparr>))
             (map_index (Annotations johnny) UserSignupVerificationCounterAnnotationKey))) = 0
   \<and> fst (InitVerification sample_env (sample_cfg\<lparr>DailyLimit := 0\<rparr>) 1000 sample_world
            ''johnny'' ''+12268213044'' ''1'')
       = Some (CrtError 403 ''daily limit exceeded'' ''cannot generate new verification code'')
   \<and> \<not> list_ex isSend (calls_of sample_world
          (snd (InitVerification sample_env (sample_cfg\<lparr>DailyLimit := 0\<rparr>) 1000 sample_world
                  ''johnny'' ''+12268213044'' ''1'')))"
proof -
  let ?cfg = "sample_cfg\<lparr>DailyLimit := 0\<rparr>"
  let ?win = "InitVerification_window sample_env 1000 johnny
          (InitVerification_counter (DailyLimit ?cfg)
             (map_index (Annotations johnny) UserSignupVerificationCounterAnnotationKey))"
  let ?w1 = "snd (client_Get sample_world (EncodeUserIdentifier sample_env ''johnny''))"
  let ?w2 = "snd (PhoneNumberAlreadyInUse sample_env ?w1 ''johnny'' ''+12268213044'')"
  have get: "client_Get sample_world (EncodeUserIdentifier sample_env ''johnny'') = (Inr johnny, ?w1)"
    by (simp add: client_Get_def sample_world_def sample_env_def next_fault_def Name_johnny)
  have vr: "VerificationRequired johnny" by code_simp
  have inuse: "fst (PhoneNumberAlreadyInUse sample_env ?w1 ''johnny'' ''+12268213044'') = None"
    by code_simp
  have win: "?win = (fst ?win, snd ?win)" by simp
  have reset: "case time_Parse sample_env
                      (map_index (Annotations johnny) UserSignupVerificationInitTimestampAnnotationKey) of
                 Inl parseErr \<Rightarrow> True
               | Inr ts \<Rightarrow> Time_After 1000 (Time_Add ts (24 * Hour))"
    by code_simp
  have lim: "DailyLimit ?cfg <=s fst ?win" by code_simp
  have poll: "fst (PollUpdateSignup sample_env
                 (InitVerification_doUpdate sample_env ''johnny''
                    [UserSignupUserPhoneHashLabelKey \<mapsto> EncodeString sample_env ''+12268213044''] (snd ?win)) ?w2)
              = None"
    by code_simp
  from InitVerification_daily_limit [OF get vr pair_fst [OF inuse] win, of "''1''"] reset lim poll
  show ?thesis by simp
qed

text \<open>
  Counterexample to C6 as stated: the counter is at the daily limit, every update of the
  UserSignup meets a conflict, and the call returns the error of the update loop, which is
  not the 403 Forbidden error.
\<close>

theorem InitVerification_daily_limit_counterexample:
  "DailyLimit (sample_cfg\<lparr>DailyLimit := 0\<rparr>)
     <=s fst (InitVerification_window sample_env 1000 johnny
          (InitVerification_counter (DailyLimit (sample_cfg\<lparr>DailyLimit := 0\<rparr>))
             (map_index (Annotations johnny) UserSignupVerificationCounterAnnotationKey)))
   \<and> fst (InitVerification sample_env (sample_cfg\<lparr>DailyLimit := 0\<rparr>) 1000
            (sample_world\<lparr>update_faults := conflicts\<rparr>) ''johnny'' ''+12268213044'' ''1'')
       = Some updateAccountError
   \<and> updateAccountError \<noteq> CrtError 403 ''daily limit exceeded'' ''cannot generate new verification code''"
  by code_simp

text \<open>
  Claim C10. When \<open>InitVerification\<close>, having read the UserSignup, returns the daily limit
  error, the update loop has run: an update call was made, and the stored UserSignup carries
  the hash of the phone number as its phone hash label and, when the 24 hour window was
  reset, the present as init timestamp and 0 as verification counter.
\<close>

theorem InitVerification_daily_limit_persists:
  assumes get: "client_Get w (EncodeUserIdentifier env username) = (Inr signup, w1)"
    and res: "fst (InitVerification env cfg now w username phone cc)
                = Some (CrtError 403 ''daily limit exceeded'' ''cannot generate new verification code'')"
  shows "list_ex isUpdate (calls_of w (snd (InitVerification env cfg now w username phone cc)))
       \<and> (\<exists>signup'.
             find (\<lambda>s. Name s = EncodeUserIdentifier env username)
               (UserSignups (snd (InitVerification env cfg now w username phone cc))) = Some signup'
             \<and> Labels signup' UserSignupUserPhoneHashLabelKey = Some (EncodeString env phone)
             \<and> ((case time_Parse env (map_index (Annotations signup) UserSignupVerificationInitTimestampAnnotationKey) of
                    Inl parseErr \<Rightarrow> True
                  | Inr ts \<Rightarrow> Time_After now (Time_Add ts (24 * Hour)))
                 \<longrightarrow> Annotations signup' UserSignupVerificationInitTimestampAnnotationKey
                       = Some (time_Format env now)
                     \<and> Annotations signup' UserSignupVerificationCounterAnnotationKey = Some ''0''))"
proof -
  let ?R = "InitVerification env cfg now w username phone cc"
  let ?lv = "[UserSignupUserPhoneHashLabelKey \<mapsto> EncodeString env phone]"
  let ?DL = "Some (NewForbiddenError ''daily limit exceeded'' ''cannot generate new verification code'')"
  have res': "fst ?R = ?DL" using res by (simp add: NewForbiddenError_def StatusForbidden_def)
  have vr: "VerificationRequired signup"
  proof (rule ccontr)
    assume "\<not> VerificationRequired signup"
    then have "fst ?R = Some (NewBadRequest ''forbidden request'' ''verification code will not be sent'')"
      using get by (simp add: InitVerification_def)
    then show False using res by (simp add: NewBadRequest_def StatusBadRequest_def)
  qed
  obtain r2 w2 where inuse0: "PhoneNumberAlreadyInUse env w1 username phone = (r2, w2)"
    by (cases "PhoneNumberAlreadyInUse env w1 username phone") auto
  have "r2 = None"
  proof (cases r2)
    case None
    then show ?thesis .
  next
    case (Some err)
    then have "fst ?R = Some (NewForbiddenError ''phone number already in use''
                               (''cannot register using phone number: '' @ phone))
             \<or> fst ?R = Some (NewInternalError err ''could not lookup users by phone number'')"
      using get vr inuse0 by (simp add: InitVerification_def)
    then show ?thesis
      using res by (auto simp: NewForbiddenError_def NewInternalError_def StatusForbidden_def
          StatusInternalServerError_def)
  qed
  then have inuse: "PhoneNumberAlreadyInUse env w1 username phone = (None, w2)"
    using inuse0 by simp
  obtain counter av where win:
    "InitVerification_window env now signup
       (InitVerification_counter (DailyLimit cfg)
          (map_index (Annotations signup) UserSignupVerificationCounterAnnotationKey)) = (counter, av)"
    by (cases "InitVerification_window env now signup
       (InitVerification_counter (DailyLimit cfg)
          (map_index (Annotations signup) UserSignupVerificationCounterAnnotationKey))") auto
  have lim: "DailyLimit cfg <=s counter"
  proof (rule ccontr)
    assume n: "\<not> DailyLimit cfg <=s counter"
    obtain r3 w3 where gen: "generateVerificationCode w2 = (r3, w3)"
      by (cases "generateVerificationCode w2") auto
    show False
    proof (cases r3)
      case (Inl err)
      then have "fst ?R = Some (NewInternalError err ''error while generating verification code'')"
        using get vr inuse win n gen by (simp add: InitVerification_def)
      then show False using res by (simp add: NewInternalError_def StatusInternalServerError_def)
    next
      case (Inr verificationCode)
      let ?av' = "av(UserVerificationAttemptsAnnotationKey \<mapsto> ''0'',
                     UserSignupVerificationCounterAnnotationKey \<mapsto> Itoa (counter + 1),
                     UserSignupVerificationCodeAnnotationKey \<mapsto> verificationCode,
                     UserVerificationExpiryAnnotationKey \<mapsto>
                       time_Format env (Time_Add now (CodeExpiresInMin cfg * Minute)))"
      obtain r4 w4 where send: "SendNotification w3 (MessageTemplate cfg verificationCode) phone cc = (r4, w4)"
        by (cases "SendNotification w3 (MessageTemplate cfg verificationCode) phone cc") auto
      have R: "?R = (case r4 of
                  Some err \<Rightarrow> (Some (NewInternalError err ''error while sending verification code''), w4)
                | None \<Rightarrow> InitVerification_update env username ?lv ?av' None w4)"
        using get vr inuse win n gen Inr send by (simp add: InitVerification_def Let_def)
      show False
      proof (cases r4)
        case (Some err)
        then show False using R res by (simp add: NewInternalError_def StatusInternalServerError_def)
      next
        case None
        then have "fst ?R = None \<or> fst ?R = Some updateAccountError"
          using R by (auto simp: InitVerification_update_def split: prod.splits option.splits)
        then show False using res by (auto simp: updateAccountError_def)
      qed
    qed
  qed
  have R: "?R = InitVerification_update env username ?lv av ?DL w2"
    using get vr inuse win lim by (simp add: InitVerification_def)
  obtain rp wp where poll: "PollUpdateSignup env (InitVerification_doUpdate env username ?lv av) w2 = (rp, wp)"
    by (cases "PollUpdateSignup env (InitVerification_doUpdate env username ?lv av) w2") auto
  have rp: "rp = None"
  proof (cases rp)
    case None
    then show ?thesis .
  next
    case (Some updateErr)
    then have "fst ?R = Some updateAccountError"
      using R poll by (simp add: InitVerification_update_def)
    then show ?thesis using res by (simp add: updateAccountError_def)
  qed
  have wp: "snd ?R = wp" using R poll rp by (simp add: InitVerification_update_def)
  have "PollUpdateSignup_loop (poll_retries env) (poll_retriable env)
          (InitVerification_doUpdate env username ?lv av) w2 = (None, wp)"
    using poll rp by (simp add: PollUpdateSignup_def)
  then obtain w0 where w0: "InitVerification_doUpdate env username ?lv av w0 = (None, wp)"
      "sends_nothing w2 w0"
    using PollUpdateSignup_loop_success_from
            [of "InitVerification_doUpdate env username ?lv av" "poll_retries env" "poll_retriable env" w2 wp]
          InitVerification_doUpdate_sends_nothing
    by blast
  from InitVerification_doUpdate_None [OF w0(1)] obtain signup0 where
    s0: "find (\<lambda>s. Name s = EncodeUserIdentifier env username) (UserSignups wp)
           = Some (signup0\<lparr>Labels := Labels signup0 ++ ?lv, Annotations := Annotations signup0 ++ av\<rparr>)"
    and upd: "list_ex isUpdate (calls_of w0 wp)" by blast
  have "reads_only w w2"
    using client_Get_reads [OF get] PhoneNumberAlreadyInUse_reads [OF inuse] by (rule reads_only_trans)
  then have "sends_nothing w w2" by (rule reads_only_sends_nothing)
  then have "sends_nothing w w0" using w0(2) by (rule sends_nothing_trans)
  then have "calls_of w wp = calls_of w w0 @ calls_of w0 wp"
    using InitVerification_doUpdate_sends_nothing [OF w0(1)] by (rule calls_of_trans)
  then have a: "list_ex isUpdate (calls_of w wp)" using upd by simp
  let ?s' = "signup0\<lparr>Labels := Labels signup0 ++ ?lv, Annotations := Annotations signup0 ++ av\<rparr>"
  have b: "Labels ?s' UserSignupUserPhoneHashLabelKey = Some (EncodeString env phone)" by simp
  have c: "(case time_Parse env (map_index (Annotations signup) UserSignupVerificationInitTimestampAnnotationKey) of
                    Inl parseErr \<Rightarrow> True
                  | Inr ts \<Rightarrow> Time_After now (Time_Add ts (24 * Hour)))
            \<longrightarrow> Annotations ?s' UserSignupVerificationInitTimestampAnnotationKey = Some (time_Format env now)
                \<and> Annotations ?s' UserSignupVerificationCounterAnnotationKey = Some ''0''"
  proof
    assume "case time_Parse env (map_index (Annotations signup) UserSignupVerificationInitTimestampAnnotationKey) of
                    Inl parseErr \<Rightarrow> True
                  | Inr ts \<Rightarrow> Time_After now (Time_Add ts (24 * Hour))"
    from InitVerification_window_reset [OF this win]
    show "Annotations ?s' UserSignupVerificationInitTimestampAnnotationKey = Some (time_Format env now)
                \<and> Annotations ?s' UserSignupVerificationCounterAnnotationKey = Some ''0''"
      by (simp add: map_add_def)
  qed
  have "find (\<lambda>s. Name s = EncodeUserIdentifier env username) (UserSignups (snd ?R)) = Some ?s'
        \<and> Labels ?s' UserSignupUserPhoneHashLabelKey = Some (EncodeString env phone)
        \<and> ((case time_Parse env (map_index (Annotations signup) UserSignupVerificationInitTimestampAnnotationKey) of
                    Inl parseErr \<Rightarrow> True
                  | Inr ts \<Rightarrow> Time_After now (Time_Add ts (24 * Hour)))
            \<longrightarrow> Annotations ?s' UserSignupVerificationInitTimestampAnnotationKey = Some (time_Format env now)
                \<and> Annotations ?s' UserSignupVerificationCounterAnnotationKey = Some ''0'')"
    using s0 b c wp by simp
  then have "\<exists>signup'. find (\<lambda>s. Name s = EncodeUserIdentifier env username) (UserSignups (snd ?R)) = Some signup'
        \<and> Labels signup' UserSignupUserPhoneHashLabelKey = Some (EncodeString env phone)
        \<and> ((case time_Parse env (map_index (Annotations signup) UserSignupVerificationInitTimestampAnnotationKey) of
                    Inl parseErr \<Rightarrow> True
                  | Inr ts \<Rightarrow> Time_After now (Time_Add ts (24 * Hour)))
            \<longrightarrow> Annotations signup' UserSignupVerificationInitTimestampAnnotationKey = Some (time_Format env now)
                \<and> Annotations signup' UserSignupVerificationCounterAnnotationKey = Some ''0'')"
    by (rule exI [of _ ?s'])
  then show ?thesis using a wp by simp
qed

text \<open>
  Witness for C10: with a daily limit of 0 the sample signup (whose window is reset) gets
  its phone hash label, the present as init timestamp and 0 as counter.
\<close>

theorem InitVerification_daily_limit_persists_witness:
  "list_ex isUpdate (calls_of sample_world
      (snd (InitVerification sample_env (sample_cfg\<lparr>DailyLimit := 0\<rparr>) 1000 sample_world
              ''johnny'' ''+12268213044'' ''1'')))
   \<and> (\<exists>signup'.
         find (\<lambda>s. Name s = EncodeUserIdentifier sample_env ''johnny'')
           (UserSignups (snd (InitVerification sample_env (sample_cfg\<lparr>DailyLimit := 0\<rparr>) 1000 sample_world
              ''johnny'' ''+12268213044'' ''1''))) = Some signup'
         \<and> Labels signup' UserSignupUserPhoneHashLabelKey = Some (EncodeString sample_env ''+12268213044'')
         \<and> Annotations signup' UserSignupVerificationInitTimestampAnnotationKey
               = Some (time_Format sample_env 1000)
         \<and> Annotations signup' UserSignupVerificationCounterAnnotationKey = Some ''0'')"
proof -
  let ?cfg = "sample_cfg\<lparr>DailyLimit := 0\<rparr>"
  let ?w1 = "snd (client_Get sample_world (EncodeUserIdentifier sample_env ''johnny''))"
  have get: "client_Get sample_world (EncodeUserIdentifier sample_env ''johnny'') = (Inr johnny, ?w1)"
    by (simp add: client_Get_def sample_world_def sample_env_def next_fault_def Name_johnny)
  have res: "fst (InitVerification sample_env ?cfg 1000 sample_world ''johnny'' ''+12268213044'' ''1'')
                = Some (CrtError 403 ''daily limit exceeded'' ''cannot generate new verification code'')"
    by code_simp
  have reset: "case time_Parse sample_env
                      (map_index (Annotations johnny) UserSignupVerificationInitTimestampAnnotationKey) of
                 Inl parseErr \<Rightarrow> True
               | Inr ts \<Rightarrow> Time_After 1000 (Time_Add ts (24 * Hour))"
    by code_simp
  from InitVerification_daily_limit_persists [OF get res] reset
  show ?thesis by blast
qed

subsection \<open>VerifyActivationCode\<close>

lemma VerifyActivationCode_doUpdate_errToReturn:
  assumes "VerifyActivationCode_doUpdate env now username code (a, e0, w) = (r, (a1, e1, w1))"
  shows "e1 = (case VerifyActivationCode_validationErr env now username code (a, e0, w) of
                 None \<Rightarrow> e0 | Some verr \<Rightarrow> Some verr)"
  using assms
  by (auto simp: VerifyActivationCode_doUpdate_def VerifyActivationCode_validationErr_def Let_def
      split: prod.splits sum.splits)

lemma VerifyActivationCode_loop_errToReturn:
  "PollUpdateSignup_loop n retriable (VerifyActivationCode_doUpdate env now username code) (a, e0, w)
     = (r, (a', e', w')) \<Longrightarrow>
   e' = (case List.map_filter (VerifyActivationCode_validationErr env now username code)
                (PollUpdateSignup_states n retriable
                   (VerifyActivationCode_doUpdate env now username code) (a, e0, w)) of
           [] \<Rightarrow> e0
         | verr # verrs \<Rightarrow> Some (last (verr # verrs)))"
proof (induction n arbitrary: a e0 w)
  case 0
  from VerifyActivationCode_doUpdate_errToReturn [of env now username code a e0 w r a' e' w'] 0
  show ?case
    by (simp add: List.map_filter_simps split: option.splits)
next
  case (Suc n)
  let ?upd = "VerifyActivationCode_doUpdate env now username code"
  let ?val = "VerifyActivationCode_validationErr env now username code"
  obtain r1 a1 e1 w1 where u: "?upd (a, e0, w) = (r1, (a1, e1, w1))"
    by (cases "?upd (a, e0, w)") auto
  have e1: "e1 = (case ?val (a, e0, w) of None \<Rightarrow> e0 | Some verr \<Rightarrow> Some verr)"
    using u by (rule VerifyActivationCode_doUpdate_errToReturn)
  show ?case
  proof (cases "\<exists>err. r1 = Some err \<and> retriable err")
    case False
    then have st: "PollUpdateSignup_states (Suc n) retriable ?upd (a, e0, w) = [(a, e0, w)]"
      using u by (cases r1) auto
    have "(r, (a', e', w')) = (r1, (a1, e1, w1))"
      using False Suc.prems u by (cases r1) (auto split: if_splits)
    then have "e' = e1" by simp
    then show ?thesis
      unfolding st using e1 by (simp add: List.map_filter_simps split: option.splits)
  next
    case True
    then obtain err where err: "r1 = Some err" "retriable err" by blast
    have st: "PollUpdateSignup_states (Suc n) retriable ?upd (a, e0, w)
                = (a, e0, w) # PollUpdateSignup_states n retriable ?upd (a1, e1, w1)"
      using u err by simp
    have "PollUpdateSignup_loop n retriable ?upd (a1, e1, w1) = (r, (a', e', w'))"
      using Suc.prems u err by simp
    from Suc.IH [OF this]
    have ih: "e' = (case List.map_filter ?val (PollUpdateSignup_states n retriable ?upd (a1, e1, w1)) of
                      [] \<Rightarrow> e1 | verr # verrs \<Rightarrow> Some (last (verr # verrs)))" .
    show ?thesis
      unfolding st using ih e1
      by (cases "?val (a, e0, w)";
          cases "List.map_filter ?val (PollUpdateSignup_states n retriable ?upd (a1, e1, w1))")
         (simp_all add: List.map_filter_simps)
  qed
qed

text \<open>
  Claim C8. Once the UserSignup is read and the attempts are below the limit: when some
  iteration of the update loop met a validation error of the social event, the call returns
  the validation error (of the last such iteration), whatever the outcome of the update loop;
  when no iteration met one, the call returns the outcome of the update loop, its error or
  none.
\<close>

theorem VerifyActivationCode_error_preference:
  assumes get: "client_Get w (EncodeUserIdentifier env username) = (Inr signup, w1)"
    and att: "checkAttempts cfg signup = Inr attemptsMade"
  shows "fst (VerifyActivationCode env cfg now w username code) =
           (case List.map_filter (VerifyActivationCode_validationErr env now username code)
                   (PollUpdateSignup_states (poll_retries env) (poll_retriable env)
                      (VerifyActivationCode_doUpdate env now username code) (attemptsMade, None, w1)) of
              [] \<Rightarrow> fst (PollUpdateSignup env (VerifyActivationCode_doUpdate env now username code)
                          (attemptsMade, None, w1))
            | verr # verrs \<Rightarrow> Some (last (verr # verrs)))"
proof -
  let ?upd = "VerifyActivationCode_doUpdate env now username code"
  obtain r a' e' w' where poll: "PollUpdateSignup env ?upd (attemptsMade, None, w1) = (r, (a', e', w'))"
    by (cases "PollUpdateSignup env ?upd (attemptsMade, None, w1)") auto
  have V: "fst (VerifyActivationCode env cfg now w username code)
             = (case e' of None \<Rightarrow> r | Some verr \<Rightarrow> Some verr)"
    using get att poll by (cases r; cases e') (simp_all add: VerifyActivationCode_def)
  have "e' = (case List.map_filter (VerifyActivationCode_validationErr env now username code)
                (PollUpdateSignup_states (poll_retries env) (poll_retriable env) ?upd (attemptsMade, None, w1)) of
           [] \<Rightarrow> None
         | verr # verrs \<Rightarrow> Some (last (verr # verrs)))"
    using poll unfolding PollUpdateSignup_def by (rule VerifyActivationCode_loop_errToReturn)
  then show ?thesis
    using V poll by (simp split: list.splits)
qed

text \<open>
  Witness for C8: every update meets a conflict. Without a social event of the given name
  the validation fails and its 403 error is returned; with the event present the conflict is
  returned.
\<close>

theorem VerifyActivationCode_error_preference_witness:
  "fst (VerifyActivationCode sample_env sample_cfg 1000 (sample_world\<lparr>update_faults := conflicts\<rparr>)
          ''johnny'' ''event'')
     = Some (CrtError 403 ''invalid code'' ''the provided code is invalid'')
   \<and> fst (VerifyActivationCode sample_env sample_cfg 1000
            (sample_world\<lparr>update_faults := conflicts, SocialEvents := [sample_event]\<rparr>)
            ''johnny'' ''event'')
     = Some (StatusError Conflict ''the object has been modified'')"
proof -
  let ?wa = "sample_world\<lparr>update_faults := conflicts\<rparr>"
  let ?wb = "sample_world\<lparr>update_faults := conflicts, SocialEvents := [sample_event]\<rparr>"
  let ?w1a = "snd (client_Get ?wa (EncodeUserIdentifier sample_env ''johnny''))"
  let ?w1b = "snd (client_Get ?wb (EncodeUserIdentifier sample_env ''johnny''))"
  have geta: "client_Get ?wa (EncodeUserIdentifier sample_env ''johnny'') = (Inr johnny, ?w1a)"
    by (simp add: client_Get_def sample_world_def sample_env_def next_fault_def Name_johnny)
  have getb: "client_Get ?wb (EncodeUserIdentifier sample_env ''johnny'') = (Inr johnny, ?w1b)"
    by (simp add: client_Get_def sample_world_def sample_env_def next_fault_def Name_johnny)
  have att: "checkAttempts sample_cfg johnny = Inr 0" by code_simp
  have a: "(case List.map_filter (VerifyActivationCode_validationErr sample_env 1000 ''johnny'' ''event'')
                   (PollUpdateSignup_states (poll_retries sample_env) (poll_retriable sample_env)
                      (VerifyActivationCode_doUpdate sample_env 1000 ''johnny'' ''event'') (0, None, ?w1a)) of
              [] \<Rightarrow> fst (PollUpdateSignup sample_env (VerifyActivationCode_doUpdate sample_env 1000 ''johnny'' ''event'')
                          (0, None, ?w1a))
            | verr # verrs \<Rightarrow> Some (last (verr # verrs)))
           = Some (CrtError 403 ''invalid code'' ''the provided code is invalid'')"
    by code_simp
  have b: "(case List.map_filter (VerifyActivationCode_validationErr sample_env 1000 ''johnny'' ''event'')
                   (PollUpdateSignup_states (poll_retries sample_env) (poll_retriable sample_env)
                      (VerifyActivationCode_doUpdate sample_env 1000 ''johnny'' ''event'') (0, None, ?w1b)) of
              [] \<Rightarrow> fst (PollUpdateSignup sample_env (VerifyActivationCode_doUpdate sample_env 1000 ''johnny'' ''event'')
                          (0, None, ?w1b))
            | verr # verrs \<Rightarrow> Some (last (verr # verrs)))
           = Some (StatusError Conflict ''the object has been modified'')"
    by code_simp
  from VerifyActivationCode_error_preference [OF geta att, of 1000 "''event''"]
       VerifyActivationCode_error_preference [OF getb att, of 1000 "''event''"] a b
  show ?thesis by simp
qed

subsection \<open>VerifyPhoneCode: the code differs\<close>

lemma client_Update_Some:
  "client_Update w signup = (Some err, w') \<Longrightarrow> UserSignups w' = UserSignups w"
  by (auto simp: client_Update_def Let_def split: prod.splits option.splits)

lemma VerifyPhoneCode_doUpdate_Some:
  assumes "VerifyPhoneCode_doUpdate env username unset av dels w0 = (Some err, w')"
  shows "UserSignups w' = UserSignups w0"
proof -
  obtain r1 w1 where g: "client_Get w0 (EncodeUserIdentifier env username) = (r1, w1)"
    by (cases "client_Get w0 (EncodeUserIdentifier env username)") auto
  have s1: "UserSignups w1 = UserSignups w0"
    using client_Get_world [OF g] by simp
  show ?thesis
  proof (cases r1)
    case (Inl e)
    then show ?thesis using assms g s1 by (simp add: VerifyPhoneCode_doUpdate_def)
  next
    case (Inr signup)
    then obtain signup3 where "client_Update w1 signup3 = (Some err, w')"
      using assms g by (simp add: VerifyPhoneCode_doUpdate_def Let_def)
    from client_Update_Some [OF this] s1 show ?thesis by simp
  qed
qed

lemma PollUpdateSignup_loop_Some:
  assumes step: "\<And>s err s'. updater s = (Some err, s') \<Longrightarrow> UserSignups s' = UserSignups s"
  shows "PollUpdateSignup_loop n retriable updater s = (Some err, s') \<Longrightarrow>
           UserSignups s' = UserSignups s"
proof (induction n arbitrary: s)
  case 0
  then show ?case using step by simp
next
  case (Suc n)
  obtain r1 s1 where u: "updater s = (r1, s1)" by (cases "updater s") auto
  show ?case
  proof (cases r1)
    case None
    then show ?thesis using Suc.prems u by simp
  next
    case (Some e1)
    have a: "UserSignups s1 = UserSignups s" using u Some step by simp
    show ?thesis
    proof (cases "retriable e1")
      case True
      then have "PollUpdateSignup_loop n retriable updater s1 = (Some err, s')"
        using Suc.prems u Some by simp
      from Suc.IH [OF this] a show ?thesis by simp
    next
      case False
      then show ?thesis using Suc.prems u Some a by simp
    qed
  qed
qed

text \<open>
  Claim C2, as the code has it. When the UserSignup is read, the captcha gate and the phone
  reuse check pass, the attempts are below the limit, the expiry has not passed and the code
  differs from the stored one: if the update loop succeeds, the call returns the 403
  Forbidden error \<open>invalid code: the provided code is invalid\<close> and the stored attempts
  annotation is the decimal form of the previous number of attempts plus one (without
  overflow); if the update loop fails, the call returns the error of the update loop and the
  stored UserSignups are as they were.
\<close>

theorem VerifyPhoneCode_mismatch:
  assumes get: "client_Get w (EncodeUserIdentifier env username) = (Inr signup, w1)"
    and gate: "VerifyPhoneCode_captcha env cfg signup = None"
    and inuse: "PhoneNumberAlreadyInUse env w1 username
                  (map_index (Labels signup) UserSignupUserPhoneHashLabelKey) = (None, w2)"
    and att: "Atoi (map_index (Annotations signup) UserVerificationAttemptsAnnotationKey) = Inr attemptsMade"
    and lim: "attemptsMade <s AttemptsAllowed cfg"
    and exp: "time_Parse env (map_index (Annotations signup) UserVerificationExpiryAnnotationKey) = Inr exp"
    and notexp: "\<not> Time_After now exp"
    and code: "code \<noteq> map_index (Annotations signup) UserSignupVerificationCodeAnnotationKey"
  shows "fst (VerifyPhoneCode env cfg now w username code)
           = (if fst (PollUpdateSignup env
                        (VerifyPhoneCode_doUpdate env username False
                           [UserVerificationAttemptsAnnotationKey \<mapsto> Itoa (attemptsMade + 1)] []) w2) = None
              then Some (CrtError 403 ''invalid code'' ''the provided code is invalid'')
              else Some updateAccountError)
         \<and> (fst (PollUpdateSignup env
                    (VerifyPhoneCode_doUpdate env username False
                       [UserVerificationAttemptsAnnotationKey \<mapsto> Itoa (attemptsMade + 1)] []) w2) = None
             \<longrightarrow> (\<exists>signup'. find (\<lambda>s. Name s = EncodeUserIdentifier env username)
                      (UserSignups (snd (VerifyPhoneCode env cfg now w username code))) = Some signup'
                    \<and> Annotations signup' UserVerificationAttemptsAnnotationKey
                         = Some (Itoa (attemptsMade + 1))
                    \<and> Atoi (Itoa (attemptsMade + 1)) = Inr (attemptsMade + 1)))
         \<and> (fst (PollUpdateSignup env
                    (VerifyPhoneCode_doUpdate env username False
                       [UserVerificationAttemptsAnnotationKey \<mapsto> Itoa (attemptsMade + 1)] []) w2) \<noteq> None
             \<longrightarrow> UserSignups (snd (VerifyPhoneCode env cfg now w username code)) = UserSignups w)
         \<and> sint (attemptsMade + 1) = sint attemptsMade + 1"
proof -
  let ?av = "[UserVerificationAttemptsAnnotationKey \<mapsto> Itoa (attemptsMade + 1)]"
  let ?upd = "VerifyPhoneCode_doUpdate env username False ?av []"
  let ?V = "VerifyPhoneCode env cfg now w username code"
  have nle: "\<not> AttemptsAllowed cfg <=s attemptsMade"
    using lim by (simp add: word_sle_eq word_sless_alt)
  have chk: "VerifyPhoneCode_checks env cfg now signup code =
      (Some (NewForbiddenError ''invalid code'' ''the provided code is invalid''), ?av, [], False)"
    using att nle exp notexp code by (simp add: VerifyPhoneCode_checks_def)
  obtain r w3 where poll: "PollUpdateSignup env ?upd w2 = (r, w3)"
    by (cases "PollUpdateSignup env ?upd w2") auto
  have V: "?V = (case r of Some updateErr \<Rightarrow> (Some updateAccountError, w3)
       | None \<Rightarrow> (Some (NewForbiddenError ''invalid code'' ''the provided code is invalid''), w3))"
    using get gate inuse chk poll by (simp add: VerifyPhoneCode_def split: option.splits)
  have w3: "snd ?V = w3" using V by (cases r) simp_all
  have one: "fst ?V = (if fst (PollUpdateSignup env ?upd w2) = None
              then Some (CrtError 403 ''invalid code'' ''the provided code is invalid'')
              else Some updateAccountError)"
    using V poll by (cases r) (simp_all add: NewForbiddenError_def StatusForbidden_def)
  have two: "fst (PollUpdateSignup env ?upd w2) = None
             \<longrightarrow> (\<exists>signup'. find (\<lambda>s. Name s = EncodeUserIdentifier env username)
                      (UserSignups (snd ?V)) = Some signup'
                    \<and> Annotations signup' UserVerificationAttemptsAnnotationKey
                         = Some (Itoa (attemptsMade + 1))
                    \<and> Atoi (Itoa (attemptsMade + 1)) = Inr (attemptsMade + 1))"
  proof
    assume "fst (PollUpdateSignup env ?upd w2) = None"
    then have "PollUpdateSignup env ?upd w2 = (None, w3)" using poll by simp
    from PollUpdateSignup_success [OF this] obtain w0 where "?upd w0 = (None, w3)" by blast
    from VerifyPhoneCode_doUpdate_None [OF this] obtain signup' where
      "find (\<lambda>s. Name s = EncodeUserIdentifier env username) (UserSignups w3) = Some signup'"
      "Annotations signup' UserVerificationAttemptsAnnotationKey = Some (Itoa (attemptsMade + 1))"
      by auto
    then show "\<exists>signup'. find (\<lambda>s. Name s = EncodeUserIdentifier env username)
                      (UserSignups (snd ?V)) = Some signup'
                    \<and> Annotations signup' UserVerificationAttemptsAnnotationKey
                         = Some (Itoa (attemptsMade + 1))
                    \<and> Atoi (Itoa (attemptsMade + 1)) = Inr (attemptsMade + 1)"
      using w3 Atoi_Itoa [of "attemptsMade + 1"] by auto
  qed
  have three: "fst (PollUpdateSignup env ?upd w2) \<noteq> None \<longrightarrow> UserSignups (snd ?V) = UserSignups w"
  proof
    assume "fst (PollUpdateSignup env ?upd w2) \<noteq> None"
    then obtain updateErr where "PollUpdateSignup_loop (poll_retries env) (poll_retriable env) ?upd w2
                                   = (Some updateErr, w3)"
      using poll by (cases r) (auto simp: PollUpdateSignup_def)
    then have "UserSignups w3 = UserSignups w2"
      by (rule PollUpdateSignup_loop_Some [rotated]) (rule VerifyPhoneCode_doUpdate_Some)
    moreover have "reads_only w w2"
      using client_Get_reads [OF get] PhoneNumberAlreadyInUse_reads [OF inuse] by (rule reads_only_trans)
    then have "UserSignups w2 = UserSignups w" unfolding reads_only_def by (elim conjE)
    ultimately show "UserSignups (snd ?V) = UserSignups w" using w3 by simp
  qed
  from one two three sint_succ [OF lim] show ?thesis by (intro conjI)
qed

text \<open>Witness for C2: a wrong code on the first attempt, stored by the first update.\<close>

theorem VerifyPhoneCode_mismatch_witness:
  "fst (VerifyPhoneCode sample_env sample_cfg 1000 sample_world ''johnny'' ''123456'')
           = Some (CrtError 403 ''invalid code'' ''the provided code is invalid'')
   \<and> (\<exists>signup'. find (\<lambda>s. Name s = EncodeUserIdentifier sample_env ''johnny'')
          (UserSignups (snd (VerifyPhoneCode sample_env sample_cfg 1000 sample_world ''johnny'' ''123456''))) = Some signup'
        \<and> Annotations signup' UserVerificationAttemptsAnnotationKey = Some (Itoa (0 + 1)))"
proof -
  let ?w1 = "snd (client_Get sample_world (EncodeUserIdentifier sample_env ''johnny''))"
  let ?w2 = "snd (PhoneNumberAlreadyInUse sample_env ?w1 ''johnny''
                    (map_index (Labels johnny) UserSignupUserPhoneHashLabelKey))"
  have get: "client_Get sample_world (EncodeUserIdentifier sample_env ''johnny'') = (Inr johnny, ?w1)"
    by (simp add: client_Get_def sample_world_def sample_env_def next_fault_def Name_johnny)
  have gate: "VerifyPhoneCode_captcha sample_env sample_cfg johnny = None"
    by code_simp
  have inuse: "fst (PhoneNumberAlreadyInUse sample_env ?w1 ''johnny''
                  (map_index (Labels johnny) UserSignupUserPhoneHashLabelKey)) = None"
    by code_simp
  have att: "Atoi (map_index (Annotations johnny) UserVerificationAttemptsAnnotationKey) = Inr 0"
    by code_simp
  have lim: "(0 :: goint) <s AttemptsAllowed sample_cfg"
    by code_simp
  have exp: "time_Parse sample_env (map_index (Annotations johnny) UserVerificationExpiryAnnotationKey) = Inr 2000"
    by code_simp
  have notexp: "\<not> Time_After 1000 2000"
    by code_simp
  have code: "''123456'' \<noteq> map_index (Annotations johnny) UserSignupVerificationCodeAnnotationKey"
    by code_simp
  have poll: "fst (PollUpdateSignup sample_env
                    (VerifyPhoneCode_doUpdate sample_env ''johnny'' False
                       [UserVerificationAttemptsAnnotationKey \<mapsto> Itoa (0 + 1)] []) ?w2) = None"
    by code_simp
  from VerifyPhoneCode_mismatch [OF get gate pair_fst [OF inuse] att lim exp notexp code] poll
  show ?thesis by auto
qed

text \<open>
  Counterexample to C2 as stated: the code differs from the stored one, the attempts are
  below the limit, the expiry has not passed, the captcha gate and the reuse check pass, but
  every update of the UserSignup meets a conflict. The call returns the error of the update
  loop, not the 403 Forbidden error, and the stored attempts annotation is still \<open>0\<close>.
\<close>

theorem VerifyPhoneCode_mismatch_counterexample:
  "''555555'' \<noteq> map_index (Annotations johnny) UserSignupVerificationCodeAnnotationKey
   \<and> Atoi (map_index (Annotations johnny) UserVerificationAttemptsAnnotationKey) = Inr 0
   \<and> (0 :: goint) <s AttemptsAllowed sample_cfg
   \<and> time_Parse sample_env (map_index (Annotations johnny) UserVerificationExpiryAnnotationKey) = Inr 2000
   \<and> \<not> Time_After 1000 2000
   \<and> VerifyPhoneCode_captcha sample_env sample_cfg johnny = None
   \<and> fst (PhoneNumberAlreadyInUse sample_env (sample_world\<lparr>update_faults := conflicts\<rparr>) ''johnny''
            (map_index (Labels johnny) UserSignupUserPhoneHashLabelKey)) = None
   \<and> fst (VerifyPhoneCode sample_env sample_cfg 1000 (sample_world\<lparr>update_faults := conflicts\<rparr>)
            ''johnny'' ''555555'') = Some updateAccountError
   \<and> updateAccountError \<noteq> CrtError 403 ''invalid code'' ''the provided code is invalid''
   \<and> map_option (\<lambda>s. Annotations s UserVerificationAttemptsAnnotationKey)
        (find (\<lambda>s. Name s = EncodeUserIdentifier sample_env ''johnny'')
           (UserSignups (snd (VerifyPhoneCode sample_env sample_cfg 1000
              (sample_world\<lparr>update_faults := conflicts\<rparr>) ''johnny'' ''555555''))))
      = Some (Some ''0'')"
  by code_simp

end
